theory Spec2Isabelle
  imports Main
begin

section \<open>Gitraffe: a shallow embedding of the commit-graph viewer\<close>

text \<open>
  The definitions below embed the Go program of the repository (its latest revision,
  the file with \<^verbatim>\<open>loadGraphData\<close>, \<^verbatim>\<open>trimToHeight\<close> and \<^verbatim>\<open>addBoxLabel\<close>).
  Go's \<^verbatim>\<open>int\<close> is modelled by \<^typ>\<open>int\<close>: every integer of the program that the
  theorems speak about is an index into a slice, a slice length, a terminal size or an
  offset that a key press moves by at most 10, and the sums and differences the code
  forms of them stay inside 64 bits (for the scroll window this is the lemma
  \<open>visibleRange_in_64_bits\<close> below).
  A Go \<^verbatim>\<open>string\<close> is a byte sequence and is modelled by \<^typ>\<open>string\<close>, whose
  characters are bytes, so that \<^verbatim>\<open>len\<close> is \<^const>\<open>length\<close>. What the program
  takes from lipgloss, from git and from the operating system is a parameter of the
  function that uses it.
\<close>

subsection \<open>Integer division\<close>

text \<open>
  Go's \<^verbatim>\<open>/\<close> on integers truncates towards zero. The program divides by the constants
  3 and 5 only.
\<close>

definition goDiv :: "int \<Rightarrow> int \<Rightarrow> int" where
  "goDiv a b = (if (a < 0) = (b < 0) then \<bar>a\<bar> div \<bar>b\<bar> else - (\<bar>a\<bar> div \<bar>b\<bar>))"

subsection \<open>Strings: the functions of package \<^verbatim>\<open>strings\<close> the program calls\<close>

abbreviation NL :: char where
  "NL \<equiv> CHR 0x0A"

text \<open>
  \<^verbatim>\<open>strings.Split(s, sep)\<close> for a separator of one byte: the pieces between the
  separators, one more than there are separators (so one empty piece for the empty string).
  The three functions on separators are written for lists of any element, since the
  label overlay below splits a sequence of runes at the newline.
\<close>

fun splitOn :: "'a \<Rightarrow> 'a list \<Rightarrow> 'a list list" where
  "splitOn c [] = [[]]"
| "splitOn c (x # xs) =
     (if x = c then [] # splitOn c xs
      else (case splitOn c xs of
              [] \<Rightarrow> [[x]]
            | piece # pieces \<Rightarrow> (x # piece) # pieces))"

text \<open>
  \<^verbatim>\<open>strings.SplitN(s, sep, n)\<close> for a separator of one byte and \<open>n \<ge> 0\<close>: at most
  \<open>n\<close> pieces, the last one the unsplit remainder; no piece at all for \<open>n = 0\<close>.
\<close>

fun splitN :: "nat \<Rightarrow> 'a \<Rightarrow> 'a list \<Rightarrow> 'a list list" where
  "splitN 0 c s = []"
| "splitN (Suc 0) c s = [s]"
| "splitN (Suc (Suc n)) c s =
     (case dropWhile (\<lambda>x. x \<noteq> c) s of
        [] \<Rightarrow> [s]
      | sep # rest \<Rightarrow> takeWhile (\<lambda>x. x \<noteq> c) s # splitN (Suc n) c rest)"

text \<open>
  White space as \<^verbatim>\<open>strings.Fields\<close> and \<^verbatim>\<open>strings.TrimSpace\<close> see it in ASCII text: tab,
  newline, vertical tab, form feed, carriage return and space. (Both also treat the
  Unicode spaces outside ASCII as white space; bytes from 0x80 on are not white space here.)
\<close>

definition isSpace :: "char \<Rightarrow> bool" where
  "isSpace c = (c \<in> set [CHR 0x09, CHR 0x0A, CHR 0x0B, CHR 0x0C, CHR 0x0D, CHR 0x20])"

fun splitWhere :: "(char \<Rightarrow> bool) \<Rightarrow> string \<Rightarrow> string list" where
  "splitWhere P [] = [[]]"
| "splitWhere P (x # xs) =
     (if P x then [] # splitWhere P xs
      else (case splitWhere P xs of
              [] \<Rightarrow> [[x]]
            | piece # pieces \<Rightarrow> (x # piece) # pieces))"

text \<open>\<^verbatim>\<open>strings.Fields(s)\<close>: the maximal runs of bytes that are not white space.\<close>

definition fieldsOf :: "string \<Rightarrow> string list" where
  "fieldsOf s = filter (\<lambda>w. w \<noteq> []) (splitWhere isSpace s)"

text \<open>\<^verbatim>\<open>strings.TrimSpace(s)\<close>: \<open>s\<close> without its leading and trailing white space.\<close>

definition trimSpace :: "string \<Rightarrow> string" where
  "trimSpace s = rev (dropWhile isSpace (rev (dropWhile isSpace s)))"

text \<open>
  \<^verbatim>\<open>s[strings.LastIndex(s, sep)+1:]\<close> for a separator of one byte: what follows the last
  separator, and all of \<open>s\<close> when it has none (\<^verbatim>\<open>LastIndex\<close> is then \<open>-1\<close>).
\<close>

definition afterLast :: "char \<Rightarrow> string \<Rightarrow> string" where
  "afterLast c s = rev (takeWhile (\<lambda>x. x \<noteq> c) (rev s))"

text \<open>
  \<^verbatim>\<open>strconv.ParseInt(s, 10, 64)\<close>: an optional sign and then decimal digits, at least
  one; an error (here \<open>None\<close>) for anything else and for a value outside 64 bits.
\<close>

definition isDigit :: "char \<Rightarrow> bool" where
  "isDigit c = (c \<in> set ''0123456789'')"

definition digitVal :: "char \<Rightarrow> int" where
  "digitVal c = int (of_char c) - 48"

definition parseInt :: "string \<Rightarrow> int option" where
  "parseInt s =
     (let neg = (s \<noteq> [] \<and> hd s = CHR ''-'');
          digits = (if s \<noteq> [] \<and> (hd s = CHR ''+'' \<or> hd s = CHR ''-'') then tl s else s)
      in if digits = [] \<or> \<not> list_all isDigit digits then None
         else let v = foldl (\<lambda>acc d. 10 * acc + digitVal d) 0 digits;
                  v = (if neg then - v else v)
              in if v < - (2 ^ 63) \<or> v > 2 ^ 63 - 1 then None else Some v)"

text \<open>\<^verbatim>\<open>strings.Join(elems, sep)\<close> for a separator of one byte.\<close>

fun joinWith :: "'a \<Rightarrow> 'a list list \<Rightarrow> 'a list" where
  "joinWith c [] = []"
| "joinWith c [l] = l"
| "joinWith c (l # l' # ls) = l @ c # joinWith c (l' # ls)"

text \<open>
  \<^verbatim>\<open>lipgloss.Height(str)\<close> is \<^verbatim>\<open>strings.Count(str, "\n") + 1\<close>: it counts newline
  bytes only, so the bytes of an escape sequence never count as lines.
\<close>

definition lipglossHeight :: "string \<Rightarrow> int" where
  "lipglossHeight str = int (length (filter (\<lambda>x. x = NL) str)) + 1"

subsection \<open>Data model\<close>

text \<open>\<^verbatim>\<open>time.Time\<close>: the zero value, or a Unix time in seconds.\<close>

datatype timeval = ZeroTime | UnixTime int

record commit =
  Hash :: string
  FullHash :: string
  Author :: string
  Date :: timeval
  Message :: string
  Parents :: "string list"
  Refs :: string
  GraphLine :: string
  DiffLoaded :: bool
  DiffStat :: string
  DiffBody :: string

record displayRow =
  GraphChars :: string
  CommitIdx :: int
  GraphWidth :: int

text \<open>
  The model of the program (\<^verbatim>\<open>type model struct\<close>). The pointer \<^verbatim>\<open>repo\<close> is kept as
  whether it is nil (\<open>None\<close>) or an opened repository, and \<^verbatim>\<open>err\<close> as the text of the
  error, \<open>None\<close> for nil.
\<close>

type_synonym repoHandle = nat

record model =
  repo :: "repoHandle option"
  commits :: "commit list"
  ready :: bool
  repoPath :: string
  err :: "string option"
  selected :: int
  windowHeight :: int
  windowWidth :: int
  repoName :: string
  currentBranch :: string
  currentCommit :: string
  focusedBox :: int
  detailsScroll :: int
  displayRows :: "displayRow list"
  maxGraphWidth :: int

definition emptyCommit :: commit where
  "emptyCommit = \<lparr>Hash = [], FullHash = [], Author = [], Date = ZeroTime, Message = [],
     Parents = [], Refs = [], GraphLine = [], DiffLoaded = False, DiffStat = [],
     DiffBody = []\<rparr>"

definition initialModel :: "string \<Rightarrow> model" where
  "initialModel path = \<lparr>repo = None, commits = [], ready = False, repoPath = path,
     err = None, selected = 0, windowHeight = 0, windowWidth = 0, repoName = [],
     currentBranch = [], currentCommit = [], focusedBox = 1, detailsScroll = 0,
     displayRows = [], maxGraphWidth = 0\<rparr>"

text \<open>
  The messages of the update step, and the commands it returns. A key press carries the
  name of the key (\<^verbatim>\<open>msg.String()\<close>); \<open>LoadDiff\<close> is \<^verbatim>\<open>loadDiffCmd(repoPath, fullHash, idx)\<close>.
\<close>

datatype msg =
    KeyMsg string
  | WindowSizeMsg int int
  | RepoMsg "repoHandle option"
  | ErrMsg string
  | DiffLoadedMsg int string string
  | OtherMsg

datatype cmd = NoCmd | Quit | LoadDiff string string int

text \<open>
  What the program reads from outside while it handles a message: the working directory
  (\<^verbatim>\<open>os.Getwd\<close>), the head of the opened repository (whether it is a branch, its short
  name, its hash), the output of the two \<^verbatim>\<open>git rev-parse\<close> calls, the result of
  \<^verbatim>\<open>git log --graph\<close> and of the plain \<^verbatim>\<open>git log\<close> (the error and the standard error
  text, or the standard output), and the clock.
\<close>

record env =
  getwd :: "string option"
  headRef :: "(bool \<times> string \<times> string) option"
  revParseBranch :: "string option"
  revParseCommit :: "string option"
  graphLog :: "(string \<times> string) + string"
  simpleLog :: "(string \<times> string) + string"
  clock :: timeval

subsection \<open>The graph-stream parser (\<^verbatim>\<open>loadGraphData\<close>)\<close>

text \<open>
  \<^verbatim>\<open>transliterateGraph\<close>: the replacer turns every \<^verbatim>\<open>*\<close> into U+25CF and every
  \<^verbatim>\<open>|\<close> into U+2502, each three bytes of UTF-8, and copies every other byte.
\<close>

definition transliterateGraph :: "string \<Rightarrow> string" where
  "transliterateGraph s =
     concat (map (\<lambda>c. if c = CHR ''*'' then [CHR 0xE2, CHR 0x97, CHR 0x8F]
                        else if c = CHR ''|'' then [CHR 0xE2, CHR 0x94, CHR 0x82]
                        else [c]) s)"

text \<open>
  \<^verbatim>\<open>hashPattern.FindStringIndex(line)\<close> for the pattern \<^verbatim>\<open>[0-9a-f]{40}\<close>: the offset
  of the leftmost place where 40 bytes in a row are digits or letters \<open>a\<close> to \<open>f\<close>, and
  \<open>None\<close> (Go's nil) when there is no such place. The match ends 40 bytes later; the
  program uses its start only.
\<close>

definition isHexLower :: "char \<Rightarrow> bool" where
  "isHexLower c = (c \<in> set ''0123456789abcdef'')"

fun findHashFrom :: "nat \<Rightarrow> string \<Rightarrow> nat option" where
  "findHashFrom i [] = None"
| "findHashFrom i (x # xs) =
     (if 40 \<le> length (x # xs) \<and> list_all isHexLower (take 40 (x # xs)) then Some i
      else findHashFrom (Suc i) xs)"

definition findHash :: "string \<Rightarrow> nat option" where
  "findHash line = findHashFrom 0 line"

text \<open>
  The commit record built from the fields of a commit line, lines 580 to 619: the hash
  cut to 7 bytes, the author, the time when the third field is a number, the subject,
  the parents cut to 7 bytes each, the trimmed decorations. It is called with at least
  four fields.
\<close>

definition shorten :: "string \<Rightarrow> string" where
  "shorten h = (if length h > 7 then take 7 h else h)"

definition graphCommit :: "string list \<Rightarrow> commit" where
  "graphCommit parts =
     (let fullHash = parts ! 0;
          shortHash = shorten fullHash;
          author = parts ! 1;
          date = (case parseInt (parts ! 2) of Some ts \<Rightarrow> UnixTime ts | None \<Rightarrow> ZeroTime);
          message = parts ! 3;
          parents = (if length parts > 4 \<and> parts ! 4 \<noteq> []
                     then map shorten (fieldsOf (parts ! 4)) else []);
          refs = (if length parts > 5 then trimSpace (parts ! 5) else [])
      in emptyCommit\<lparr>Hash := shortHash, FullHash := fullHash, Author := author,
           Date := date, Message := message, Parents := parents, Refs := refs\<rparr>)"

text \<open>
  One turn of the loop over the lines, lines 563 to 646, on the three fields of the model
  that the loop writes. An empty line and a commit line with fewer than four fields are
  skipped (\<^verbatim>\<open>continue\<close>).
\<close>

definition graphLine :: "model \<Rightarrow> string \<Rightarrow> model" where
  "graphLine m line =
     (if line = [] then m
      else case findHash line of
        Some loc0 \<Rightarrow>
          (let graphPart = take loc0 line;
               dataPart = drop loc0 line;
               parts = splitN 6 (CHR 0x00) dataPart
           in if length parts < 4 then m
              else let commitIdx = int (length (commits m));
                       m = m\<lparr>commits := commits m @ [graphCommit parts]\<rparr>;
                       graphStr = transliterateGraph graphPart;
                       gw = int (length graphPart);
                       m = (if gw > maxGraphWidth m then m\<lparr>maxGraphWidth := gw\<rparr> else m)
                   in m\<lparr>displayRows := displayRows m @
                        [\<lparr>GraphChars = graphStr, CommitIdx = commitIdx, GraphWidth = gw\<rparr>]\<rparr>)
      | None \<Rightarrow>
          (let graphStr = transliterateGraph line;
               gw = int (length line);
               m = (if gw > maxGraphWidth m then m\<lparr>maxGraphWidth := gw\<rparr> else m)
           in m\<lparr>displayRows := displayRows m @
                [\<lparr>GraphChars = graphStr, CommitIdx = - 1, GraphWidth = gw\<rparr>]\<rparr>))"

text \<open>
  The parse of the lines of a graph stream: the three fields are reset and the loop runs
  over the lines in their order.
\<close>

definition parseGraphLines :: "model \<Rightarrow> string list \<Rightarrow> model" where
  "parseGraphLines m lines =
     foldl graphLine (m\<lparr>commits := [], displayRows := [], maxGraphWidth := 0\<rparr>) lines"

text \<open>
  \<^verbatim>\<open>loadGraphData\<close>: when \<^verbatim>\<open>git log --graph\<close> fails, the error is returned and the model
  is left as it was; otherwise the standard output is split into lines and parsed.
\<close>

definition loadGraphData :: "env \<Rightarrow> model \<Rightarrow> string option \<times> model" where
  "loadGraphData e m =
     (case graphLog e of
        Inl (failure, stderr) \<Rightarrow>
          (Some (''git log --graph failed: '' @ failure @ '' ('' @ stderr @ '')''), m)
      | Inr out \<Rightarrow> (None, parseGraphLines m (splitOn NL out)))"

subsection \<open>The simple loader (\<^verbatim>\<open>loadCommitsFromGitCLI\<close>)\<close>

text \<open>
  \<^verbatim>\<open>generateGraph\<close>: the marker of a commit in simple mode, U+25C9, U+25CF or U+25C6
  followed by a space, by the number of its parents.
\<close>

definition generateGraph :: "commit list \<Rightarrow> commit list" where
  "generateGraph cs =
     map (\<lambda>c. if length (Parents c) = 0
               then c\<lparr>GraphLine := [CHR 0xE2, CHR 0x97, CHR 0x89, CHR '' '']\<rparr>
               else if length (Parents c) = 1
               then c\<lparr>GraphLine := [CHR 0xE2, CHR 0x97, CHR 0x8F, CHR '' '']\<rparr>
               else c\<lparr>GraphLine := [CHR 0xE2, CHR 0x97, CHR 0x86, CHR '' '']\<rparr>) cs"

text \<open>
  One turn of the loop of \<^verbatim>\<open>loadCommitsFromGitCLI\<close>, lines 450 to 504, on the commits
  collected so far. The fields are separated by \<^verbatim>\<open>|\<close>; a time that is not a number
  becomes the time of the clock.
\<close>

definition cliLine :: "timeval \<Rightarrow> commit list \<Rightarrow> string \<Rightarrow> commit list" where
  "cliLine now cs line =
     (if line = [] then cs
      else let parts = splitOn (CHR ''|'') line
           in if length parts < 4 then cs
              else let fullHash = parts ! 0;
                       shortHash = shorten fullHash;
                       author = parts ! 1;
                       date = (case parseInt (parts ! 2) of Some ts \<Rightarrow> UnixTime ts | None \<Rightarrow> now);
                       message = parts ! 3;
                       parents = (if length parts > 4 \<and> parts ! 4 \<noteq> []
                                  then map shorten (fieldsOf (parts ! 4)) else [])
                   in cs @ [emptyCommit\<lparr>Hash := shortHash, FullHash := fullHash,
                              Author := author, Date := date, Message := message,
                              Parents := parents\<rparr>])"

definition loadCommitsFromGitCLI :: "env \<Rightarrow> string + commit list" where
  "loadCommitsFromGitCLI e =
     (case simpleLog e of
        Inl (failure, stderr) \<Rightarrow> Inl (''git command failed: '' @ failure)
      | Inr out \<Rightarrow> Inr (generateGraph (foldl (cliLine (clock e)) [] (splitOn NL out))))"

subsection \<open>Repository information (\<^verbatim>\<open>loadRepoInfo\<close>, \<^verbatim>\<open>loadRepoInfoFromCLI\<close>)\<close>

text \<open>
  The name of the repository is the last element of its path, or of the working directory
  for the path \<^verbatim>\<open>.\<close>; the path separator is taken to be \<^verbatim>\<open>/\<close>. Both loaders of the
  repository information start with these statements.
\<close>

definition setRepoName :: "env \<Rightarrow> model \<Rightarrow> model" where
  "setRepoName e m =
     (let m = m\<lparr>repoName := repoPath m\<rparr>
      in if repoPath m = ''.''
         then (case getwd e of
                 Some wd \<Rightarrow> m\<lparr>repoName := afterLast (CHR ''/'') wd\<rparr>
               | None \<Rightarrow> m)
         else m\<lparr>repoName := afterLast (CHR ''/'') (repoPath m)\<rparr>)"

definition loadRepoInfoFromCLI :: "env \<Rightarrow> model \<Rightarrow> model" where
  "loadRepoInfoFromCLI e m =
     (let m = setRepoName e m;
          m = (case revParseBranch e of
                 Some out \<Rightarrow> m\<lparr>currentBranch := trimSpace out\<rparr>
               | None \<Rightarrow> m\<lparr>currentBranch := ''unknown''\<rparr>)
      in case revParseCommit e of
           Some out \<Rightarrow> m\<lparr>currentCommit := trimSpace out\<rparr>
         | None \<Rightarrow> m\<lparr>currentCommit := ''unknown''\<rparr>)"

definition loadRepoInfo :: "env \<Rightarrow> model \<Rightarrow> model" where
  "loadRepoInfo e m =
     (let m = setRepoName e m
      in if repo m \<noteq> None
         then (case headRef e of
                 Some (isBranch, short, hash) \<Rightarrow>
                   (let m = (if isBranch then m\<lparr>currentBranch := short\<rparr>
                             else m\<lparr>currentBranch := ''HEAD (detached)''\<rparr>)
                    in m\<lparr>currentCommit := take 7 hash\<rparr>)
               | None \<Rightarrow> m)
         else loadRepoInfoFromCLI e m)"

subsection \<open>The update step (\<^verbatim>\<open>Update\<close>)\<close>

definition maybeLoadDiff :: "model \<Rightarrow> cmd" where
  "maybeLoadDiff m =
     (if selected m \<ge> 0 \<and> selected m < int (length (commits m)) \<and>
         \<not> DiffLoaded (commits m ! nat (selected m))
      then LoadDiff (repoPath m) (FullHash (commits m ! nat (selected m))) (selected m)
      else NoCmd)"

text \<open>
  The keys of the commit list (\<^verbatim>\<open>case 1\<close>) and of the details panel (\<^verbatim>\<open>case 2\<close>), lines
  177 to 238. \<open>None\<close> stands for a key that none of the cases names: the switch is
  left and \<^verbatim>\<open>Update\<close> ends with \<^verbatim>\<open>return m, nil\<close>.
\<close>

definition listKey :: "model \<Rightarrow> string \<Rightarrow> (model \<times> cmd) option" where
  "listKey m k =
     (if k = ''j'' \<or> k = ''down''
      then (let m = (if selected m < int (length (commits m)) - 1
                     then m\<lparr>selected := selected m + 1, detailsScroll := 0\<rparr> else m)
            in Some (m, maybeLoadDiff m))
      else if k = ''k'' \<or> k = ''up''
      then (let m = (if selected m > 0
                     then m\<lparr>selected := selected m - 1, detailsScroll := 0\<rparr> else m)
            in Some (m, maybeLoadDiff m))
      else if k = ''d'' \<or> k = ''ctrl+d''
      then (let m = m\<lparr>selected := selected m + 10\<rparr>;
                m = (if selected m \<ge> int (length (commits m))
                     then m\<lparr>selected := int (length (commits m)) - 1\<rparr> else m);
                m = m\<lparr>detailsScroll := 0\<rparr>
            in Some (m, maybeLoadDiff m))
      else if k = ''u'' \<or> k = ''ctrl+u''
      then (let m = m\<lparr>selected := selected m - 10\<rparr>;
                m = (if selected m < 0 then m\<lparr>selected := 0\<rparr> else m);
                m = m\<lparr>detailsScroll := 0\<rparr>
            in Some (m, maybeLoadDiff m))
      else if k = ''g'' \<or> k = ''home''
      then (let m = m\<lparr>selected := 0, detailsScroll := 0\<rparr>
            in Some (m, maybeLoadDiff m))
      else if k = ''G'' \<or> k = ''end''
      then (let m = m\<lparr>selected := int (length (commits m)) - 1, detailsScroll := 0\<rparr>
            in Some (m, maybeLoadDiff m))
      else None)"

definition detailsKey :: "model \<Rightarrow> string \<Rightarrow> (model \<times> cmd) option" where
  "detailsKey m k =
     (if k = ''j'' \<or> k = ''down''
      then Some (m\<lparr>detailsScroll := detailsScroll m + 1\<rparr>, NoCmd)
      else if k = ''k'' \<or> k = ''up''
      then Some (if detailsScroll m > 0 then m\<lparr>detailsScroll := detailsScroll m - 1\<rparr> else m,
                 NoCmd)
      else if k = ''d'' \<or> k = ''ctrl+d''
      then Some (m\<lparr>detailsScroll := detailsScroll m + 10\<rparr>, NoCmd)
      else if k = ''u'' \<or> k = ''ctrl+u''
      then (let m = m\<lparr>detailsScroll := detailsScroll m - 10\<rparr>
            in Some (if detailsScroll m < 0 then m\<lparr>detailsScroll := 0\<rparr> else m, NoCmd))
      else if k = ''g'' \<or> k = ''home''
      then Some (m\<lparr>detailsScroll := 0\<rparr>, NoCmd)
      else None)"

definition updateKey :: "model \<Rightarrow> string \<Rightarrow> model \<times> cmd" where
  "updateKey m k =
     (if k = ''q'' \<or> k = ''ctrl+c'' \<or> k = ''esc'' then (m, Quit)
      else if k = ''0'' then (m\<lparr>focusedBox := 0\<rparr>, NoCmd)
      else if k = ''1'' then (m\<lparr>focusedBox := 1\<rparr>, NoCmd)
      else if k = ''2'' then (m\<lparr>focusedBox := 2\<rparr>, NoCmd)
      else if ready m \<and> length (commits m) > 0
      then (if focusedBox m = 1
            then (case listKey m k of Some r \<Rightarrow> r | None \<Rightarrow> (m, NoCmd))
            else if focusedBox m = 2
            then (case detailsKey m k of Some r \<Rightarrow> r | None \<Rightarrow> (m, NoCmd))
            else (m, NoCmd))
      else (m, NoCmd))"

text \<open>
  The load after the repository was opened or failed to open, lines 250 to 262 and 268
  to 280: the graph stream first and, when it is not to be had, the simple loader, whose
  commits are stored; the display rows are written by \<^verbatim>\<open>loadGraphData\<close> alone. The text
  of the stored error, made of the errors of the two loaders, differs in the two cases
  and is a parameter.
\<close>

definition loadAll :: "env \<Rightarrow> (string \<Rightarrow> string \<Rightarrow> string) \<Rightarrow> model \<Rightarrow> model \<times> cmd" where
  "loadAll e errorText m =
     (case loadGraphData e m of
        (Some gerr, m) \<Rightarrow>
          (case loadCommitsFromGitCLI e of
             Inl err2 \<Rightarrow>
               (m\<lparr>err := Some (errorText gerr err2), ready := True\<rparr>, NoCmd)
           | Inr cs \<Rightarrow>
               (let m = m\<lparr>commits := cs\<rparr>;
                    m = m\<lparr>ready := True, selected := 0\<rparr>
                in (m, maybeLoadDiff m)))
      | (None, m) \<Rightarrow>
          (let m = m\<lparr>ready := True, selected := 0\<rparr>
           in (m, maybeLoadDiff m)))"

definition Update :: "env \<Rightarrow> model \<Rightarrow> msg \<Rightarrow> model \<times> cmd" where
  "Update e m message =
     (case message of
        KeyMsg k \<Rightarrow> updateKey m k
      | WindowSizeMsg w h \<Rightarrow> (m\<lparr>windowWidth := w, windowHeight := h\<rparr>, NoCmd)
      | RepoMsg r \<Rightarrow>
          (let m = m\<lparr>repo := r\<rparr>;
               m = loadRepoInfo e m
           in loadAll e (\<lambda>gerr err2. ''graph: '' @ gerr @ '', fallback: '' @ err2) m)
      | ErrMsg text \<Rightarrow>
          (let m = loadRepoInfoFromCLI e m
           in loadAll e (\<lambda>gerr err2. text @ '' (graph: '' @ gerr @ '', fallback: '' @ err2 @ '')'') m)
      | DiffLoadedMsg commitIdx diffStat diffBody \<Rightarrow>
          (if commitIdx \<ge> 0 \<and> commitIdx < int (length (commits m))
           then (m\<lparr>commits := (commits m)[nat commitIdx :=
                    (commits m ! nat commitIdx)\<lparr>DiffLoaded := True, DiffStat := diffStat,
                       DiffBody := diffBody\<rparr>]\<rparr>, NoCmd)
           else (m, NoCmd))
      | OtherMsg \<Rightarrow> (m, NoCmd))"

subsection \<open>The scroll window of the commit list (\<^verbatim>\<open>renderCommitList\<close>, graph mode)\<close>

text \<open>\<^verbatim>\<open>visibleHeight := m.windowHeight - 8; if visibleHeight < 1 { visibleHeight = 1 }\<close>\<close>

definition visibleHeight :: "int \<Rightarrow> int" where
  "visibleHeight wh =
     (let vh = wh - 8 in if vh < 1 then 1 else vh)"

text \<open>
  The loop that finds the display row of the selected commit: the index of the first row
  whose \<^verbatim>\<open>CommitIdx\<close> is the selection, and 0 when there is none.
\<close>

fun firstRowFrom :: "nat \<Rightarrow> int \<Rightarrow> displayRow list \<Rightarrow> nat" where
  "firstRowFrom i sel [] = 0"
| "firstRowFrom i sel (row # rows) =
     (if CommitIdx row = sel then i else firstRowFrom (Suc i) sel rows)"

definition selectedRowIdx :: "displayRow list \<Rightarrow> int \<Rightarrow> int" where
  "selectedRowIdx rows sel = int (firstRowFrom 0 sel rows)"

text \<open>
  The window itself, lines 727 to 738: \<^verbatim>\<open>startIdx\<close> and \<^verbatim>\<open>endIdx\<close> of the rows drawn,
  from the number of rows, the selected row and the height of the viewport.
\<close>

definition visibleRange :: "int \<Rightarrow> int \<Rightarrow> int \<Rightarrow> int \<times> int" where
  "visibleRange totalRows selRow vh =
     (let startIdx = selRow - goDiv vh 3;
          startIdx = (if startIdx < 0 then 0 else startIdx);
          endIdx = startIdx + vh
      in if endIdx > totalRows
         then (let endIdx = totalRows;
                   startIdx = endIdx - vh;
                   startIdx = (if startIdx < 0 then 0 else startIdx)
               in (startIdx, endIdx))
         else (startIdx, endIdx))"

subsection \<open>The commit list (\<^verbatim>\<open>renderCommitList\<close>)\<close>

text \<open>
  The styles of lipgloss are functions from a text to the text wrapped in escape
  sequences; the four that the commit list uses are parameters.
\<close>

record styles =
  graphColor :: "string \<Rightarrow> string"
  selGraphColor :: "string \<Rightarrow> string"
  selHashStyle :: "string \<Rightarrow> string"
  commitHashStyle :: "string \<Rightarrow> string"

text \<open>
  The padded connector column of a row, lines 756 to 760, and its highlighted form for
  the selected row, \<^verbatim>\<open>strings.ReplaceAll\<close> of U+25CF by U+25C9.
\<close>

definition padLen :: "int \<Rightarrow> displayRow \<Rightarrow> int" where
  "padLen mgw row = (let p = mgw - GraphWidth row in if p < 0 then 0 else p)"

definition graphPadded :: "int \<Rightarrow> displayRow \<Rightarrow> string" where
  "graphPadded mgw row = GraphChars row @ replicate (nat (padLen mgw row)) (CHR '' '')"

fun highlight :: "string \<Rightarrow> string" where
  "highlight (a # b # c # rest) =
     (if a = CHR 0xE2 \<and> b = CHR 0x97 \<and> c = CHR 0x8F
      then CHR 0xE2 # CHR 0x97 # CHR 0x89 # highlight rest
      else a # highlight (b # c # rest))"
| "highlight s = s"

text \<open>
  The text of one row in graph mode, lines 743 to 777; \<open>None\<close> for a commit row
  whose index is outside the commits, for which the loop writes a newline only and does
  not count a line.
\<close>

definition graphRowText :: "styles \<Rightarrow> model \<Rightarrow> displayRow \<Rightarrow> string option" where
  "graphRowText S m row =
     (let isCommit = (CommitIdx row \<ge> 0);
          isSel = (isCommit \<and> CommitIdx row = selected m)
      in if isCommit \<and> (CommitIdx row < 0 \<or> CommitIdx row \<ge> int (length (commits m)))
         then None
         else if isSel
         then Some (''> '' @ selGraphColor S (highlight (graphPadded (maxGraphWidth m) row)) @ '' '' @
                    selHashStyle S (Hash (commits m ! nat (CommitIdx row))))
         else Some (''  '' @ graphColor S (graphPadded (maxGraphWidth m) row) @
                    (if isCommit
                     then '' '' @ commitHashStyle S (Hash (commits m ! nat (CommitIdx row)))
                     else [])))"

definition graphModeText :: "styles \<Rightarrow> model \<Rightarrow> int \<Rightarrow> string" where
  "graphModeText S m vh =
     (case visibleRange (int (length (displayRows m)))
             (selectedRowIdx (displayRows m) (selected m)) vh of
        (startIdx, endIdx) \<Rightarrow>
          (let texts = map (graphRowText S m)
                         (take (nat (endIdx - startIdx)) (drop (nat startIdx) (displayRows m)));
               linesWritten = int (length (filter (\<lambda>t. t \<noteq> None) texts))
           in concat (map (\<lambda>t. (case t of Some l \<Rightarrow> l | None \<Rightarrow> []) @ [NL]) texts) @
              replicate (nat (vh - linesWritten)) NL))"

text \<open>
  Simple mode, lines 786 to 816: the window over the commits themselves, and the text of
  the commit with index \<open>i\<close>.
\<close>

definition simpleRange :: "int \<Rightarrow> int \<Rightarrow> int \<Rightarrow> int \<times> int" where
  "simpleRange n sel vh =
     (let startIdx = (if sel \<ge> vh then sel - vh + 1 else 0);
          endIdx = startIdx + vh;
          endIdx = (if endIdx > n then n else endIdx)
      in (startIdx, endIdx))"

definition simpleRowText :: "styles \<Rightarrow> model \<Rightarrow> int \<Rightarrow> string" where
  "simpleRowText S m i =
     (let c = commits m ! nat i
      in if i = selected m
         then ''> '' @ selGraphColor S (GraphLine c) @ '' '' @ selHashStyle S (Hash c)
         else ''  '' @ graphColor S (GraphLine c) @ '' '' @ commitHashStyle S (Hash c))"

definition simpleModeRows :: "model \<Rightarrow> int \<Rightarrow> int list" where
  "simpleModeRows m vh =
     (case simpleRange (int (length (commits m))) (selected m) vh of
        (startIdx, endIdx) \<Rightarrow> [startIdx .. endIdx - 1])"

definition simpleModeText :: "styles \<Rightarrow> model \<Rightarrow> int \<Rightarrow> string" where
  "simpleModeText S m vh =
     (let rows = simpleModeRows m vh
      in concat (map (\<lambda>i. simpleRowText S m i @ [NL]) rows) @
         replicate (nat (vh - int (length rows))) NL)"

definition renderCommitList :: "styles \<Rightarrow> model \<Rightarrow> string" where
  "renderCommitList S m =
     (if length (commits m) = 0 then ''No commits found''
      else let vh = visibleHeight (windowHeight m);
               result = (if length (displayRows m) > 0 then graphModeText S m vh
                         else simpleModeText S m vh);
               resultLines = splitOn NL result;
               maxLines = (if windowHeight m - 8 < 3 then 3 else windowHeight m - 8);
               resultLines = (if int (length resultLines) > maxLines
                              then take (nat maxLines) resultLines else resultLines)
           in joinWith NL resultLines)"

text \<open>
  The number of columns a text of UTF-8 takes when each of its characters is one column
  wide, as the glyphs of the graph are: the bytes that start a character, those that are
  not continuation bytes \<open>0x80\<close> to \<open>0xBF\<close>.
\<close>

definition columns :: "string \<Rightarrow> nat" where
  "columns s = length (filter (\<lambda>c. \<not> (0x80 \<le> (of_char c :: nat) \<and> (of_char c :: nat) \<le> 0xBF)) s)"

subsection \<open>Panel height (\<^verbatim>\<open>trimToHeight\<close>)\<close>

text \<open>A run-time panic of Go: an index or the bounds of a slice expression out of range.\<close>

datatype panic = IndexOutOfRange | SliceBoundsOutOfRange

text \<open>
  The first statements of \<^verbatim>\<open>trimToHeight\<close>, lines 957 to 961: the lines of the rendered
  text, without the empty piece that a final newline leaves.
\<close>

definition contentLines :: "string \<Rightarrow> string list" where
  "contentLines rendered =
     (let lines = splitOn NL rendered
      in if length lines > 0 \<and> last lines = [] then butlast lines else lines)"

text \<open>
  \<^verbatim>\<open>trimToHeight\<close>, lines 956 to 977. \<^verbatim>\<open>lines[0]\<close> and \<^verbatim>\<open>lines[len(lines)-1]\<close>
  panic on an empty slice, and the slice expression \<^verbatim>\<open>lines[1 : targetHeight-1]\<close> panics
  unless \<open>1 \<le> targetHeight - 1 \<le> cap(lines)\<close>; the capacity is at least the length, which
  in that branch is greater than \<open>targetHeight\<close>.
\<close>

definition trimToHeight :: "string \<Rightarrow> int \<Rightarrow> panic + string" where
  "trimToHeight rendered targetHeight =
     (let lines = contentLines rendered
      in if int (length lines) > targetHeight
         then (if lines = [] then Inl IndexOutOfRange
               else let top = hd lines;
                        bottom = last lines
                    in if targetHeight - 1 < 1 then Inl SliceBoundsOutOfRange
                       else let middle = take (nat (targetHeight - 1) - 1) (drop 1 lines)
                            in Inr (joinWith NL (top # middle @ [bottom])))
         else Inr (joinWith NL (lines @ replicate (nat (targetHeight - int (length lines))) [])))"

subsection \<open>The label on a box (\<^verbatim>\<open>addBoxLabel\<close>)\<close>

text \<open>
  \<^verbatim>\<open>addBoxLabel\<close> walks over \<^verbatim>\<open>[]rune(topLine)\<close> and writes runes. The rendered text
  and the label are therefore taken as their sequences of runes (code points), which is
  what a text of valid UTF-8 is; the newline, the escape character, the bracket and the
  final bytes of a sequence are the runes 10, 27, 91 and 64 to 126.
\<close>

type_synonym rune = int

text \<open>
  The inner loop, lines 1002 to 1008: the runes copied up to and with the first final
  byte (all of them when there is none), and the runes left after it.
\<close>

fun copyEscape :: "rune list \<Rightarrow> rune list \<times> rune list" where
  "copyEscape [] = ([], [])"
| "copyEscape (r # rs) =
     (if r \<ge> 0x40 \<and> r \<le> 0x7E then ([r], rs)
      else (case copyEscape rs of (copied, rest) \<Rightarrow> (r # copied, rest)))"

text \<open>
  The outer loop, lines 993 to 1019, on the runes of the top line that are still to be
  read: \<open>visibleIdx\<close> counts the visible runes passed, and the label is kept as its
  runes not yet written (those from \<^verbatim>\<open>labelIdx\<close> on).
\<close>

function overlayRunes :: "nat \<Rightarrow> rune list \<Rightarrow> rune list \<Rightarrow> rune list" where
  "overlayRunes visibleIdx label [] = []"
| "overlayRunes visibleIdx label (r # rs) =
     (if r = 0x1B \<and> rs \<noteq> [] \<and> hd rs = 0x5B
      then (case copyEscape (tl rs) of
              (copied, rest) \<Rightarrow> 0x1B # 0x5B # copied @ overlayRunes visibleIdx label rest)
      else if visibleIdx \<ge> 1 \<and> label \<noteq> []
      then hd label # overlayRunes (visibleIdx + 1) (tl label) rs
      else r # overlayRunes (visibleIdx + 1) label rs)"
  by pat_completeness auto
termination
proof -
  have shorter: "length (snd (copyEscape rs)) \<le> length rs" for rs
    by (induction rs) (auto split: prod.splits)
  show ?thesis
    apply (relation "measure (\<lambda>(visibleIdx, label, rs). length rs)")
      apply simp_all
    using shorter
    apply (metis snd_conv le_imp_less_Suc length_tl diff_le_self order_trans)
    done
qed

definition addBoxLabel :: "rune list \<Rightarrow> rune list \<Rightarrow> rune list" where
  "addBoxLabel rendered label =
     (let lines = splitN 2 0x0A rendered
      in if length lines = 0 then rendered
         else let topLine = hd lines;
                  result = overlayRunes 0 label topLine
              in if length lines > 1 then result @ [0x0A] @ lines ! 1 else result)"

subsection \<open>The frame (\<^verbatim>\<open>View\<close>)\<close>

text \<open>
  What lipgloss renders for the frame is a parameter: the help line, the title of the
  error frame, the three labelled boxes (the box of the repository information, and the
  left and the right panel for a panel width and a content height) and the horizontal
  join of two panels.
\<close>

record renderer =
  helpLine :: string
  errorTitle :: string
  repoInfoBox :: "model \<Rightarrow> string"
  leftPanel :: "model \<Rightarrow> int \<Rightarrow> int \<Rightarrow> string"
  rightPanel :: "model \<Rightarrow> int \<Rightarrow> int \<Rightarrow> string"
  joinHorizontal :: "string \<Rightarrow> string \<Rightarrow> string"

text \<open>The widths of the two panels, lines 1096 to 1127.\<close>

definition panelWidths :: "model \<Rightarrow> int \<times> int" where
  "panelWidths m =
     (let leftPanelWidth = maxGraphWidth m + 14;
          leftPanelWidth = (if leftPanelWidth < 25 then 25 else leftPanelWidth);
          maxLeftWidth = goDiv (windowWidth m * 3) 5;
          leftPanelWidth = (if leftPanelWidth > maxLeftWidth then maxLeftWidth else leftPanelWidth);
          rightPanelWidth = windowWidth m - leftPanelWidth;
          (leftPanelWidth, rightPanelWidth) =
            (if rightPanelWidth < 30
             then (let rightPanelWidth = 30;
                       leftPanelWidth = windowWidth m - rightPanelWidth
                   in if leftPanelWidth < 15
                      then (15, windowWidth m - 15)
                      else (leftPanelWidth, rightPanelWidth))
             else (leftPanelWidth, rightPanelWidth));
          totalWidth = leftPanelWidth + rightPanelWidth
      in if totalWidth > windowWidth m
         then (let rightPanelWidth = windowWidth m - leftPanelWidth
               in if rightPanelWidth < 10
                  then (let rightPanelWidth = goDiv (windowWidth m) 3
                        in (windowWidth m - rightPanelWidth, rightPanelWidth))
                  else (leftPanelWidth, rightPanelWidth))
         else (leftPanelWidth, rightPanelWidth))"

text \<open>
  The frame before it is fitted to the window, lines 1075 to 1163:
  \<^verbatim>\<open>fmt.Sprintf("%s\n%s\n%s", repoInfoBox, content, help)\<close>, or the panic of
  \<^verbatim>\<open>trimToHeight\<close>.
\<close>

definition composeFrame :: "renderer \<Rightarrow> model \<Rightarrow> panic + string" where
  "composeFrame R m =
     (let box0 = repoInfoBox R m;
          repoInfoHeight = lipglossHeight box0;
          contentHeight = windowHeight m - repoInfoHeight - 5;
          contentHeight = (if contentHeight < 3 then 3 else contentHeight);
          targetPanelHeight = contentHeight + 2
      in case panelWidths m of
           (leftPanelWidth, rightPanelWidth) \<Rightarrow>
             (case trimToHeight (leftPanel R m leftPanelWidth contentHeight) targetPanelHeight of
                Inl p \<Rightarrow> Inl p
              | Inr left \<Rightarrow>
                  (case trimToHeight (rightPanel R m rightPanelWidth contentHeight)
                          targetPanelHeight of
                     Inl p \<Rightarrow> Inl p
                   | Inr right \<Rightarrow>
                       Inr (box0 @ [NL] @ joinHorizontal R left right @ [NL] @ helpLine R))))"

text \<open>
  The fit to the window, lines 1167 to 1179. The slice expression \<^verbatim>\<open>lines[:h]\<close> panics
  for a negative \<open>h\<close>; \<open>h\<close> is below the number of lines where it is evaluated.
\<close>

definition fitToWindow :: "string \<Rightarrow> int \<Rightarrow> panic + string" where
  "fitToWindow output h =
     (let actualHeight = lipglossHeight output
      in if actualHeight > h
         then (if h < 0 then Inl SliceBoundsOutOfRange
               else Inr (joinWith NL (take (nat h) (splitOn NL output))))
         else if actualHeight < h
         then Inr (output @ replicate (nat (h - actualHeight)) NL)
         else Inr output)"

text \<open>
  \<^verbatim>\<open>View\<close>. A panic is recovered by the deferred function, which returns a frame with
  the text of the panic (here its kind).
\<close>

definition panicText :: "panic \<Rightarrow> string" where
  "panicText p = (case p of
       IndexOutOfRange \<Rightarrow> ''runtime error: index out of range''
     | SliceBoundsOutOfRange \<Rightarrow> ''runtime error: slice bounds out of range'')"

definition View :: "renderer \<Rightarrow> model \<Rightarrow> string" where
  "View R m =
     (if \<not> ready m then [NL] @ ''  Initializing...''
      else if windowWidth m < 20 \<or> windowHeight m < 10
      then [NL] @ ''  Waiting for terminal size...''
      else case err m of
        Some text \<Rightarrow>
          [NL] @ ''  '' @ errorTitle R @ [NL, NL] @ ''  Error: '' @ text @ [NL, NL] @
          ''  Press q to quit. Check gitraffe.log for details.'' @ [NL]
      | None \<Rightarrow>
          (case (case composeFrame R m of
                   Inl p \<Rightarrow> Inl p
                 | Inr output \<Rightarrow> fitToWindow output (windowHeight m)) of
             Inl p \<Rightarrow>
               [NL] @ ''  PANIC caught: '' @ panicText p @ [NL, NL] @
               ''  Check gitraffe.log for details.'' @ [NL] @ ''  Press q to quit.''
           | Inr output \<Rightarrow> output))"

subsection \<open>The parser and the label overlay as the specification words them\<close>

text \<open>
  The definitions of this subsection follow the sentences of the specification, not the
  code; the theorems compare them with the code above.

  A line holds a hexadecimal run at an offset when the 40 bytes from the offset on exist
  and are all digits or letters \<open>a\<close> to \<open>f\<close>.
\<close>

definition hexRunAt :: "string \<Rightarrow> nat \<Rightarrow> bool" where
  "hexRunAt line i = (i + 40 \<le> length line \<and> list_all isHexLower (take 40 (drop i line)))"

text \<open>
  The three kinds of line: one that gives no row (an empty line, or a record of fewer
  than four fields), a connector-only line, and a commit line with its connector prefix
  and its fields.
\<close>

datatype lineKind = NoRow | ConnectorOnly string | CommitLine string "string list"

definition classifyLine :: "string \<Rightarrow> lineKind" where
  "classifyLine line =
     (if line = [] then NoRow
      else case findHash line of
        None \<Rightarrow> ConnectorOnly line
      | Some i \<Rightarrow>
          (if length (splitN 6 (CHR 0x00) (drop i line)) < 4 then NoRow
           else CommitLine (take i line) (splitN 6 (CHR 0x00) (drop i line))))"

text \<open>The commits and the rows one line gives, when \<open>n\<close> commits came before it.\<close>

definition lineCommits :: "string \<Rightarrow> commit list" where
  "lineCommits line =
     (case classifyLine line of CommitLine prefix parts \<Rightarrow> [graphCommit parts] | _ \<Rightarrow> [])"

definition lineRows :: "nat \<Rightarrow> string \<Rightarrow> displayRow list" where
  "lineRows n line =
     (case classifyLine line of
        NoRow \<Rightarrow> []
      | ConnectorOnly prefix \<Rightarrow>
          [\<lparr>GraphChars = transliterateGraph prefix, CommitIdx = - 1,
            GraphWidth = int (length prefix)\<rparr>]
      | CommitLine prefix parts \<Rightarrow>
          [\<lparr>GraphChars = transliterateGraph prefix, CommitIdx = int n,
            GraphWidth = int (length prefix)\<rparr>])"

text \<open>The rows of the lines, line after line in their order.\<close>

fun rowsFrom :: "nat \<Rightarrow> string list \<Rightarrow> displayRow list" where
  "rowsFrom n [] = []"
| "rowsFrom n (line # lines) =
     lineRows n line @ rowsFrom (n + length (lineCommits line)) lines"

text \<open>
  The connector prefix of a line that gives a row, and the text of printable ASCII, whose
  every byte is one character that takes one column.
\<close>

definition connectorPrefix :: "string \<Rightarrow> string" where
  "connectorPrefix line =
     (case classifyLine line of
        NoRow \<Rightarrow> [] | ConnectorOnly prefix \<Rightarrow> prefix | CommitLine prefix parts \<Rightarrow> prefix)"

definition printableASCII :: "string \<Rightarrow> bool" where
  "printableASCII s = list_all (\<lambda>c. 0x20 \<le> (of_char c :: nat) \<and> (of_char c :: nat) \<le> 0x7E) s"

text \<open>
  The top line of a frame as the specification reads it: a sequence of escape sequences
  and visible characters. An escape sequence is the escape character, the bracket, the
  parameter bytes and the final byte, the first rune after the bracket from \<open>0x40\<close> to
  \<open>0x7E\<close>; at the end of the line the final byte may be missing.
\<close>

datatype token = Escape "rune list" | Visible rune

definition isFinal :: "rune \<Rightarrow> bool" where
  "isFinal r = (0x40 \<le> r \<and> r \<le> 0x7E)"

function tokens :: "rune list \<Rightarrow> token list" where
  "tokens [] = []"
| "tokens (r # rs) =
     (if r = 0x1B \<and> rs \<noteq> [] \<and> hd rs = 0x5B
      then Escape (0x1B # 0x5B # takeWhile (\<lambda>x. \<not> isFinal x) (tl rs) @
                     take 1 (dropWhile (\<lambda>x. \<not> isFinal x) (tl rs))) #
           tokens (drop 1 (dropWhile (\<lambda>x. \<not> isFinal x) (tl rs)))
      else Visible r # tokens rs)"
  by pat_completeness auto
termination
  apply (relation "measure length")
    apply simp_all
  using length_dropWhile_le
  apply (metis le_imp_less_Suc length_tl diff_le_self order_trans)
  done

definition tokenText :: "token \<Rightarrow> rune list" where
  "tokenText t = (case t of Escape e \<Rightarrow> e | Visible r \<Rightarrow> [r])"

definition escapeOf :: "token \<Rightarrow> rune list option" where
  "escapeOf t = (case t of Escape e \<Rightarrow> Some e | Visible r \<Rightarrow> None)"

definition visibleRunes :: "token list \<Rightarrow> rune list" where
  "visibleRunes ts = concat (map (\<lambda>t. case t of Escape e \<Rightarrow> [] | Visible r \<Rightarrow> [r]) ts)"

text \<open>
  The overlay: the visible character at position \<open>v\<close>, counted from 0 over the visible
  characters alone, becomes the character \<open>v - 1\<close> of the label when the label has one;
  \<open>v\<close> is the position of the next visible character.
\<close>

fun relabel :: "nat \<Rightarrow> rune list \<Rightarrow> token list \<Rightarrow> token list" where
  "relabel v label [] = []"
| "relabel v label (Escape e # ts) = Escape e # relabel v label ts"
| "relabel v label (Visible r # ts) =
     Visible (if 1 \<le> v \<and> v \<le> length label then label ! (v - 1) else r) #
     relabel (Suc v) label ts"

subsection \<open>Sample data\<close>

text \<open>
  The three lines of the scenario of the specification, an environment in which
  \<^verbatim>\<open>git log --graph\<close> fails and the plain \<^verbatim>\<open>git log\<close> prints two commits, and a
  model with two commits and a scrolled details panel.
\<close>

definition hash1 :: string where
  "hash1 = ''1a2b3c4d5e6f708192a3b4c5d6e7f8091a2b3c4d''"

definition hash2 :: string where
  "hash2 = ''ffeeddccbbaa99887766554433221100ffeeddcc''"

definition scenarioLines :: "string list" where
  "scenarioLines =
     [''* '' @ hash1 @ [CHR 0x00] @ ''Alice'' @ [CHR 0x00] @ ''1700000000'' @ [CHR 0x00] @
        ''Initial'' @ [CHR 0x00, CHR 0x00],
      [CHR ''|'', CHR 0x5C],
      ''* '' @ hash2 @ [CHR 0x00] @ ''Bob'' @ [CHR 0x00] @ ''1700000100'' @ [CHR 0x00] @
        ''Second'' @ [CHR 0x00] @ hash1 @ [CHR 0x00]]"

definition graphlessEnv :: env where
  "graphlessEnv = \<lparr>getwd = Some ''/home/user/project'', headRef = None,
     revParseBranch = Some (''main'' @ [NL]), revParseCommit = Some (''ffeeddc'' @ [NL]),
     graphLog = Inl (''exit status 129'', ''error: unknown option''),
     simpleLog = Inr (hash2 @ ''|Bob|1700000100|Second|'' @ hash1 @ [NL] @
                      hash1 @ ''|Alice|1700000000|Initial|''),
     clock = UnixTime 1700000200\<rparr>"

definition twoCommits :: model where
  "twoCommits = (initialModel ''.'')\<lparr>commits := [emptyCommit, emptyCommit], ready := True,
     detailsScroll := 5\<rparr>"

definition plainStyles :: styles where
  "plainStyles = \<lparr>graphColor = (\<lambda>s. s), selGraphColor = (\<lambda>s. s), selHashStyle = (\<lambda>s. s),
     commitHashStyle = (\<lambda>s. s)\<rparr>"

text \<open>
  A renderer without colours: boxes of three lines whatever the content, and a join that
  puts the lines of two panels side by side.
\<close>

definition plainRenderer :: renderer where
  "plainRenderer = \<lparr>helpLine = ''q: quit'', errorTitle = ''Error loading repository'',
     repoInfoBox = (\<lambda>m. ''+-+'' @ [NL] @ ''|0|'' @ [NL] @ ''+-+''),
     leftPanel = (\<lambda>m w h. ''+-+'' @ [NL] @ ''|1|'' @ [NL] @ ''+-+''),
     rightPanel = (\<lambda>m w h. ''+-+'' @ [NL] @ ''|2|'' @ [NL] @ ''+-+''),
     joinHorizontal = (\<lambda>l r. joinWith NL (map (\<lambda>(a, b). a @ b)
                                  (zip (splitOn NL l) (splitOn NL r))))\<rparr>"

definition wideModel :: model where
  "wideModel = twoCommits\<lparr>windowWidth := 80, windowHeight := 10\<rparr>"

section \<open>Theorems\<close>

subsection \<open>Scroll window\<close>

lemma goDiv_nonneg: "0 \<le> a \<Longrightarrow> 0 < b \<Longrightarrow> goDiv a b = a div b"
  by (simp add: goDiv_def sgn_if)

lemma firstRowFrom_bound:
  "firstRowFrom i sel rows = 0 \<or> firstRowFrom i sel rows < i + length rows"
proof (induction rows arbitrary: i)
  case Nil
  show ?case by simp
next
  case (Cons row rows)
  show ?case
    using Cons.IH [of "Suc i"] by auto
qed

lemma selectedRowIdx_in_rows:
  "rows \<noteq> [] \<Longrightarrow> 0 \<le> selectedRowIdx rows sel \<and> selectedRowIdx rows sel < int (length rows)"
  using firstRowFrom_bound [of 0 sel rows] by (auto simp: selectedRowIdx_def)

text \<open>
  Claim C1. With at least one row, a selected row inside the rows and a viewport of
  height at least 1, the window \<open>[start, end)\<close> contains the selected row, has length
  \<open>min viewportHeight totalRows\<close>, lies inside the rows, and is the anchored one:
  \<open>start = max 0 (selected - viewportHeight / 3)\<close> while \<open>start + viewportHeight\<close> fits, and
  otherwise \<open>end = totalRows\<close> with \<open>start\<close> slid down to \<open>max 0 (totalRows - viewportHeight)\<close>.
\<close>

theorem visibleRange_contains_selection:
  assumes "1 \<le> totalRows" and "0 \<le> selRow" and "selRow < totalRows" and "1 \<le> vh"
  shows "case visibleRange totalRows selRow vh of
           (startIdx, endIdx) \<Rightarrow>
             startIdx \<le> selRow \<and> selRow < endIdx \<and>
             endIdx - startIdx = min vh totalRows \<and>
             0 \<le> startIdx \<and> endIdx \<le> totalRows \<and>
             (startIdx, endIdx) =
               (if max 0 (selRow - vh div 3) + vh \<le> totalRows
                then (max 0 (selRow - vh div 3), max 0 (selRow - vh div 3) + vh)
                else (max 0 (totalRows - vh), totalRows))"
proof -
  have d: "goDiv vh 3 = vh div 3"
    using assms(4) by (simp add: goDiv_nonneg)
  have third: "vh div 3 < vh"
    using assms(4) by simp
  show ?thesis
    using assms third unfolding visibleRange_def d Let_def
    by (auto simp: max_def min_def)
qed

theorem visibleRange_contains_selection_witness:
  "(1::int) \<le> 1000 \<and> (0::int) \<le> 500 \<and> (500::int) < 1000 \<and> (1::int) \<le> 10 \<and>
   visibleRange 1000 500 10 = (497, 507)"
  using visibleRange_contains_selection [of 1000 500 10]
  by (simp add: visibleRange_def goDiv_def)

text \<open>
  The same for the window as \<^verbatim>\<open>renderCommitList\<close> computes it from the model: whatever
  the selection and the height of the window, with at least one row the window lies
  inside the rows and holds the row that the search for the selected commit gives.
\<close>

lemma graph_window_in_rows:
  assumes "rows \<noteq> []"
  shows "case visibleRange (int (length rows)) (selectedRowIdx rows sel) (visibleHeight wh) of
           (startIdx, endIdx) \<Rightarrow>
             0 \<le> startIdx \<and> startIdx \<le> selectedRowIdx rows sel \<and>
             selectedRowIdx rows sel < endIdx \<and> endIdx \<le> int (length rows) \<and>
             endIdx - startIdx = min (visibleHeight wh) (int (length rows))"
proof -
  have r: "1 \<le> int (length rows)"
    using assms by (cases rows) auto
  have v: "1 \<le> visibleHeight wh"
    by (simp add: visibleHeight_def Let_def)
  have d: "goDiv (visibleHeight wh) 3 = visibleHeight wh div 3"
    using v by (simp add: goDiv_nonneg)
  have third: "visibleHeight wh div 3 < visibleHeight wh"
    using v by simp
  show ?thesis
    using selectedRowIdx_in_rows [OF assms, of sel] r v third
    unfolding visibleRange_def d Let_def
    by (auto simp: max_def min_def)
qed

text \<open>
  The integers of the window stay inside 64 bits: a slice of rows has at most \<open>2 ^ 58\<close>
  elements of 32 bytes each, and then neither the difference nor the sum that the code
  forms can overflow, whatever the height of the viewport.
\<close>

lemma visibleRange_in_64_bits:
  assumes "0 \<le> selRow" and "selRow < totalRows" and "totalRows \<le> 2 ^ 58"
    and "1 \<le> vh" and "vh < 2 ^ 63"
  shows "- (2 ^ 63) \<le> selRow - goDiv vh 3 \<and>
         max 0 (selRow - goDiv vh 3) + vh < 2 ^ 63 \<and>
         - (2 ^ 63) \<le> totalRows - vh"
proof -
  have d: "goDiv vh 3 = vh div 3"
    using assms(4) by (simp add: goDiv_nonneg)
  show ?thesis
    unfolding d using assms by (auto simp: max_def)
qed

subsection \<open>Splitting and joining\<close>

lemma splitOn_nonempty: "splitOn c s \<noteq> []"
  by (induction s) (auto split: list.splits)

lemma splitOn_no_sep: "l \<in> set (splitOn c s) \<Longrightarrow> c \<notin> set l"
  by (induction s arbitrary: l) (auto split: list.splits if_splits)

lemma joinWith_Cons: "ls \<noteq> [] \<Longrightarrow> joinWith c (l # ls) = l @ c # joinWith c ls"
  by (cases ls) auto

lemma joinWith_Cons_Cons: "joinWith c ((x # l) # ls) = x # joinWith c (l # ls)"
  by (cases ls) auto

lemma joinWith_splitOn: "joinWith c (splitOn c s) = s"
  by (induction s) (auto split: list.splits simp: joinWith_Cons joinWith_Cons_Cons splitOn_nonempty)

lemma splitOn_no_sep_id: "c \<notin> set l \<Longrightarrow> splitOn c l = [l]"
  by (induction l) auto

lemma splitOn_append_sep:
  "c \<notin> set l \<Longrightarrow> splitOn c (l @ c # s) = l # splitOn c s"
  by (induction l) (auto split: list.splits)

lemma splitOn_joinWith:
  "ls \<noteq> [] \<Longrightarrow> (\<forall>l \<in> set ls. c \<notin> set l) \<Longrightarrow> splitOn c (joinWith c ls) = ls"
proof (induction c ls rule: joinWith.induct)
  case (1 c) then show ?case by simp
next
  case (2 c l) then show ?case by (simp add: splitOn_no_sep_id)
next
  case (3 c l l' ls)
  then show ?case by (simp add: splitOn_append_sep)
qed

lemma length_splitOn: "length (splitOn c s) = Suc (length (filter (\<lambda>x. x = c) s))"
  by (induction s) (auto split: list.splits simp: splitOn_nonempty)

lemma lipglossHeight_splitOn: "lipglossHeight s = int (length (splitOn NL s))"
  by (simp add: lipglossHeight_def length_splitOn)

subsection \<open>Panel height\<close>

lemma contentLines_no_NL: "l \<in> set (contentLines s) \<Longrightarrow> NL \<notin> set l"
  by (auto simp: contentLines_def Let_def splitOn_no_sep dest: in_set_butlastD split: if_splits)

lemma lipglossHeight_joinWith:
  assumes "ls \<noteq> []" and "\<forall>l \<in> set ls. NL \<notin> set l"
  shows "lipglossHeight (joinWith NL ls) = int (length ls)"
  using assms by (simp add: lipglossHeight_splitOn splitOn_joinWith)

lemma lipglossHeight_append_NLs:
  "lipglossHeight (s @ replicate n NL) = lipglossHeight s + int n"
  by (simp add: lipglossHeight_def)

lemma trimToHeight_long:
  assumes "int (length (contentLines rendered)) > targetHeight" and "2 \<le> targetHeight"
  shows "trimToHeight rendered targetHeight =
           Inr (joinWith NL (hd (contentLines rendered) #
                  take (nat targetHeight - 2) (tl (contentLines rendered)) @
                  [last (contentLines rendered)]))"
proof -
  have ne: "contentLines rendered \<noteq> []"
    using assms by auto
  have "nat (targetHeight - 1) - 1 = nat targetHeight - 2"
    using assms(2) by simp
  then show ?thesis
    using assms ne by (simp add: trimToHeight_def Let_def drop_Suc)
qed

lemma trimToHeight_short:
  assumes "int (length (contentLines rendered)) \<le> targetHeight"
  shows "trimToHeight rendered targetHeight =
           Inr (joinWith NL (contentLines rendered @
                  replicate (nat targetHeight - length (contentLines rendered)) []))"
proof -
  have "nat (targetHeight - int (length (contentLines rendered))) =
          nat targetHeight - length (contentLines rendered)"
    using assms by simp
  then show ?thesis
    using assms by (simp add: trimToHeight_def Let_def)
qed

text \<open>
  Claim C5, amended. For every rendered text and every target height of at least 1,
  unless the target height is 1 and the content has more than one line,
  \<^verbatim>\<open>trimToHeight\<close> returns a text of exactly \<open>targetHeight\<close> lines. The content
  is the lines of the input without the empty piece after a final newline. Content of
  at most \<open>targetHeight\<close> lines is followed by empty lines; longer content keeps its
  first line, the \<open>targetHeight - 2\<close> lines after it and its last line, so the first
  and the last line of the output are those of the content.
\<close>

theorem trimToHeight_exact_height:
  assumes "1 \<le> targetHeight"
    and "2 \<le> targetHeight \<or> int (length (contentLines rendered)) \<le> targetHeight"
  shows "\<exists>out. trimToHeight rendered targetHeight = Inr out \<and>
           lipglossHeight out = targetHeight \<and>
           splitOn NL out =
             (if int (length (contentLines rendered)) > targetHeight
              then hd (contentLines rendered) #
                   take (nat targetHeight - 2) (tl (contentLines rendered)) @
                   [last (contentLines rendered)]
              else contentLines rendered @
                   replicate (nat targetHeight - length (contentLines rendered)) []) \<and>
           (int (length (contentLines rendered)) > targetHeight \<longrightarrow>
              hd (splitOn NL out) = hd (contentLines rendered) \<and>
              last (splitOn NL out) = last (contentLines rendered))"
proof (cases "int (length (contentLines rendered)) > targetHeight")
  case True
  let ?ls = "contentLines rendered"
  let ?L = "hd ?ls # take (nat targetHeight - 2) (tl ?ls) @ [last ?ls]"
  have two: "2 \<le> targetHeight"
    using True assms(2) by simp
  have ne: "?ls \<noteq> []"
    using True assms(1) by auto
  have "set ?L \<subseteq> set ?ls"
    using ne by (auto dest: in_set_takeD list.set_sel(2))
  then have free: "\<forall>l \<in> set ?L. NL \<notin> set l"
    using contentLines_no_NL by blast
  have len: "int (length ?L) = targetHeight"
    using True two by auto
  have split: "splitOn NL (joinWith NL ?L) = ?L"
    using free by (intro splitOn_joinWith) simp_all
  show ?thesis
    using True two len split
    by (simp add: trimToHeight_long lipglossHeight_splitOn del: joinWith.simps splitOn.simps)
next
  case False
  let ?ls = "contentLines rendered"
  let ?L = "?ls @ replicate (nat targetHeight - length ?ls) []"
  have free: "\<forall>l \<in> set ?L. NL \<notin> set l"
    by (auto simp: contentLines_no_NL)
  have len: "int (length ?L) = targetHeight"
    using False by auto
  have ne: "?L \<noteq> []"
    using len assms(1) by auto
  have split: "splitOn NL (joinWith NL ?L) = ?L"
    using free ne by (intro splitOn_joinWith)
  show ?thesis
    using False len split
    by (simp add: trimToHeight_short lipglossHeight_splitOn del: joinWith.simps splitOn.simps)
qed

theorem trimToHeight_exact_height_witness:
  "(1::int) \<le> 2 \<and>
   trimToHeight [CHR ''a'', NL, CHR ''b'', NL, CHR ''c'', NL] 2 = Inr [CHR ''a'', NL, CHR ''c''] \<and>
   lipglossHeight [CHR ''a'', NL, CHR ''c''] = 2"
  using trimToHeight_exact_height [of 2 "[CHR ''a'', NL, CHR ''b'', NL, CHR ''c'', NL]"]
  by (simp add: trimToHeight_def contentLines_def lipglossHeight_def)

text \<open>
  Claim C5 as stated fails for the target height 1: on content of two lines the slice
  expression \<^verbatim>\<open>lines[1 : targetHeight-1]\<close> is \<^verbatim>\<open>lines[1:0]\<close> and panics, so no text
  of one line is returned.
\<close>

theorem trimToHeight_height_one_counterexample:
  "contentLines [CHR ''a'', NL, CHR ''b''] = [''a'', ''b''] \<and>
   trimToHeight [CHR ''a'', NL, CHR ''b''] 1 = Inl SliceBoundsOutOfRange"
  by (simp add: trimToHeight_def contentLines_def)

subsection \<open>The update step: diffs\<close>

lemma Update_diff_in_range:
  "0 \<le> i \<Longrightarrow> i < int (length (commits m)) \<Longrightarrow>
   Update e m (DiffLoadedMsg i st bd) =
     (m\<lparr>commits := (commits m)[nat i := (commits m ! nat i)\<lparr>DiffLoaded := True,
          DiffStat := st, DiffBody := bd\<rparr>]\<rparr>, NoCmd)"
  by (simp add: Update_def)

lemma Update_diff_out_of_range:
  "\<not> (0 \<le> i \<and> i < int (length (commits m))) \<Longrightarrow>
   Update e m (DiffLoadedMsg i st bd) = (m, NoCmd)"
  by (auto simp add: Update_def)

text \<open>
  Claim C7. Attaching a diff is idempotent: for every model and every commit index, in
  range or not, the update step on a diff-loaded message, taken a second time with the
  same statistics and body, returns the state (and the command) of the first time.
\<close>

theorem diff_attach_idempotent:
  "Update e (fst (Update e m (DiffLoadedMsg i st bd))) (DiffLoadedMsg i st bd) =
     Update e m (DiffLoadedMsg i st bd)"
proof (cases "0 \<le> i \<and> i < int (length (commits m))")
  case True
  then have "nat i < length (commits m)"
    by auto
  with True show ?thesis
    by (simp add: Update_diff_in_range)
next
  case False
  then show ?thesis
    by (simp add: Update_diff_out_of_range)
qed

text \<open>
  Claim C10. The update step on a diff-loaded message changes nothing but the commits:
  every other field of the model is as before, the commits are as many as before, every
  commit at another index is as before, the commit at the index is as before but for its
  three diff fields, and for an index outside the commits the model is as before.
  (The code writes the three fields through the slice of the commits, which the model
  before the step shares; the state spoken of is the model that \<^verbatim>\<open>Update\<close> returns.)
\<close>

theorem diff_attach_frame:
  "(let m' = fst (Update e m (DiffLoadedMsg i st bd)) in
     m'\<lparr>commits := commits m\<rparr> = m \<and>
     length (commits m') = length (commits m) \<and>
     (\<forall>j < length (commits m). int j \<noteq> i \<longrightarrow> commits m' ! j = commits m ! j) \<and>
     (0 \<le> i \<and> i < int (length (commits m)) \<longrightarrow>
        (commits m' ! nat i)\<lparr>DiffLoaded := DiffLoaded (commits m ! nat i),
            DiffStat := DiffStat (commits m ! nat i),
            DiffBody := DiffBody (commits m ! nat i)\<rparr> = commits m ! nat i) \<and>
     (\<not> (0 \<le> i \<and> i < int (length (commits m))) \<longrightarrow> m' = m))"
proof (cases "0 \<le> i \<and> i < int (length (commits m))")
  case True
  then have n: "nat i < length (commits m)"
    by auto
  have other: "int j \<noteq> i \<Longrightarrow> nat i \<noteq> j" for j
    using True by auto
  show ?thesis
    using True n other by (simp add: Update_diff_in_range Let_def nth_list_update)
next
  case False
  then show ?thesis
    by (simp add: Update_diff_out_of_range)
qed

theorem diff_attach_frame_witness:
  "commits (fst (Update graphlessEnv twoCommits (DiffLoadedMsg 1 ''1 file changed'' ''+x''))) =
     [emptyCommit,
      emptyCommit\<lparr>DiffLoaded := True, DiffStat := ''1 file changed'', DiffBody := ''+x''\<rparr>] \<and>
   (fst (Update graphlessEnv twoCommits (DiffLoadedMsg 1 ''1 file changed'' ''+x'')))
     \<lparr>commits := commits twoCommits\<rparr> = twoCommits \<and>
   fst (Update graphlessEnv twoCommits (DiffLoadedMsg 2 ''1 file changed'' ''+x'')) = twoCommits"
  using diff_attach_frame [of graphlessEnv twoCommits 1 "''1 file changed''" "''+x''"]
    diff_attach_frame [of graphlessEnv twoCommits 2 "''1 file changed''" "''+x''"]
  by (simp add: Update_def twoCommits_def initialModel_def)

subsection \<open>The update step: keys\<close>

lemma first_of_six:
  fixes a b c d e f :: bool
  obtains (c1) a
    | (c2) "\<not> a" b
    | (c3) "\<not> a" "\<not> b" c
    | (c4) "\<not> a" "\<not> b" "\<not> c" d
    | (c5) "\<not> a" "\<not> b" "\<not> c" "\<not> d" e
    | (c6) "\<not> a" "\<not> b" "\<not> c" "\<not> d" "\<not> e" f
    | (none) "\<not> a" "\<not> b" "\<not> c" "\<not> d" "\<not> e" "\<not> f"
  by blast

lemma listKey_scroll:
  assumes "listKey m k = Some (m', c)" and "selected m' \<noteq> selected m"
  shows "detailsScroll m' = 0"
proof (cases rule: first_of_six [where a = "k = ''j'' \<or> k = ''down''"
          and b = "k = ''k'' \<or> k = ''up''" and c = "k = ''d'' \<or> k = ''ctrl+d''"
          and d = "k = ''u'' \<or> k = ''ctrl+u''" and e = "k = ''g'' \<or> k = ''home''"
          and f = "k = ''G'' \<or> k = ''end''"])
  case c1
  have "listKey m k =
          (let m = (if selected m < int (length (commits m)) - 1
                    then m\<lparr>selected := selected m + 1, detailsScroll := 0\<rparr> else m)
           in Some (m, maybeLoadDiff m))"
    unfolding listKey_def using c1 by (simp only: if_True)
  with assms show ?thesis by (auto simp: Let_def split: if_splits)
next
  case c2
  have "listKey m k =
          (let m = (if selected m > 0
                    then m\<lparr>selected := selected m - 1, detailsScroll := 0\<rparr> else m)
           in Some (m, maybeLoadDiff m))"
    unfolding listKey_def using c2 by (simp only: if_True if_False)
  with assms show ?thesis by (auto simp: Let_def split: if_splits)
next
  case c3
  have "listKey m k =
          (let m = m\<lparr>selected := selected m + 10\<rparr>;
               m = (if selected m \<ge> int (length (commits m))
                    then m\<lparr>selected := int (length (commits m)) - 1\<rparr> else m);
               m = m\<lparr>detailsScroll := 0\<rparr>
           in Some (m, maybeLoadDiff m))"
    unfolding listKey_def using c3 by (simp only: if_True if_False)
  with assms show ?thesis by (auto simp: Let_def split: if_splits)
next
  case c4
  have "listKey m k =
          (let m = m\<lparr>selected := selected m - 10\<rparr>;
               m = (if selected m < 0 then m\<lparr>selected := 0\<rparr> else m);
               m = m\<lparr>detailsScroll := 0\<rparr>
           in Some (m, maybeLoadDiff m))"
    unfolding listKey_def using c4 by (simp only: if_True if_False)
  with assms show ?thesis by (auto simp: Let_def split: if_splits)
next
  case c5
  have "listKey m k =
          (let m = m\<lparr>selected := 0, detailsScroll := 0\<rparr> in Some (m, maybeLoadDiff m))"
    unfolding listKey_def using c5 by (simp only: if_True if_False)
  with assms show ?thesis by (auto simp: Let_def)
next
  case c6
  have "listKey m k =
          (let m = m\<lparr>selected := int (length (commits m)) - 1, detailsScroll := 0\<rparr>
           in Some (m, maybeLoadDiff m))"
    unfolding listKey_def using c6 by (simp only: if_True if_False)
  with assms show ?thesis by (auto simp: Let_def)
next
  case none
  have "listKey m k = None"
    unfolding listKey_def using none by (simp only: if_True if_False)
  with assms show ?thesis by simp
qed

lemma detailsKey_selected:
  assumes "detailsKey m k = Some (m', c)"
  shows "selected m' = selected m"
proof (cases rule: first_of_six [where a = "k = ''j'' \<or> k = ''down''"
          and b = "k = ''k'' \<or> k = ''up''" and c = "k = ''d'' \<or> k = ''ctrl+d''"
          and d = "k = ''u'' \<or> k = ''ctrl+u''" and e = "k = ''g'' \<or> k = ''home''"
          and f = False])
  case c1
  have "detailsKey m k = Some (m\<lparr>detailsScroll := detailsScroll m + 1\<rparr>, NoCmd)"
    unfolding detailsKey_def using c1 by (simp only: if_True)
  with assms show ?thesis by auto
next
  case c2
  have "detailsKey m k =
          Some (if detailsScroll m > 0 then m\<lparr>detailsScroll := detailsScroll m - 1\<rparr> else m,
                NoCmd)"
    unfolding detailsKey_def using c2 by (simp only: if_True if_False)
  with assms show ?thesis by (auto split: if_splits)
next
  case c3
  have "detailsKey m k = Some (m\<lparr>detailsScroll := detailsScroll m + 10\<rparr>, NoCmd)"
    unfolding detailsKey_def using c3 by (simp only: if_True if_False)
  with assms show ?thesis by auto
next
  case c4
  have "detailsKey m k =
          (let m = m\<lparr>detailsScroll := detailsScroll m - 10\<rparr>
           in Some (if detailsScroll m < 0 then m\<lparr>detailsScroll := 0\<rparr> else m, NoCmd))"
    unfolding detailsKey_def using c4 by (simp only: if_True if_False)
  with assms show ?thesis by (auto simp: Let_def split: if_splits)
next
  case c5
  have "detailsKey m k = Some (m\<lparr>detailsScroll := 0\<rparr>, NoCmd)"
    unfolding detailsKey_def using c5 by (simp only: if_True if_False)
  with assms show ?thesis by auto
next
  case c6
  then show ?thesis by simp
next
  case none
  have "detailsKey m k = None"
    unfolding detailsKey_def using none by (simp only: if_True if_False)
  with assms show ?thesis by simp
qed

text \<open>
  Claim C8. Whenever the update step on a key press changes the selected commit, the
  scroll offset of the details panel is 0 in the state it returns.
\<close>

theorem selection_change_resets_scroll:
  assumes "Update e m (KeyMsg k) = (m', c)" and "selected m' \<noteq> selected m"
  shows "detailsScroll m' = 0"
proof -
  have u: "updateKey m k = (m', c)"
    using assms(1) by (simp add: Update_def)
  show ?thesis
  proof (cases rule: first_of_six [where a = "k = ''q'' \<or> k = ''ctrl+c'' \<or> k = ''esc''"
            and b = "k = ''0''" and c = "k = ''1''" and d = "k = ''2''"
            and e = "ready m \<and> length (commits m) > 0" and f = False])
    case c1
    have "updateKey m k = (m, Quit)"
      unfolding updateKey_def using c1 by (simp only: if_True)
    with u assms(2) show ?thesis by simp
  next
    case c2
    have "updateKey m k = (m\<lparr>focusedBox := 0\<rparr>, NoCmd)"
      unfolding updateKey_def using c2 by simp
    with u assms(2) show ?thesis by auto
  next
    case c3
    have "updateKey m k = (m\<lparr>focusedBox := 1\<rparr>, NoCmd)"
      unfolding updateKey_def using c3 by simp
    with u assms(2) show ?thesis by auto
  next
    case c4
    have "updateKey m k = (m\<lparr>focusedBox := 2\<rparr>, NoCmd)"
      unfolding updateKey_def using c4 by simp
    with u assms(2) show ?thesis by auto
  next
    case c5
    have "updateKey m k =
            (if focusedBox m = 1
             then (case listKey m k of Some r \<Rightarrow> r | None \<Rightarrow> (m, NoCmd))
             else if focusedBox m = 2
             then (case detailsKey m k of Some r \<Rightarrow> r | None \<Rightarrow> (m, NoCmd))
             else (m, NoCmd))"
      unfolding updateKey_def using c5 by (simp only: if_True if_False simp_thms)
    with u assms(2) show ?thesis
      by (auto split: if_splits option.splits dest: listKey_scroll detailsKey_selected)
  next
    case c6
    then show ?thesis by simp
  next
    case none
    have "updateKey m k = (m, NoCmd)"
      unfolding updateKey_def using none by (simp only: if_True if_False simp_thms)
    with u assms(2) show ?thesis by simp
  qed
qed

theorem selection_change_resets_scroll_witness:
  "Update graphlessEnv twoCommits (KeyMsg ''j'') =
     (twoCommits\<lparr>selected := 1, detailsScroll := 0\<rparr>, LoadDiff ''.'' [] 1) \<and>
   selected (twoCommits\<lparr>selected := 1, detailsScroll := 0\<rparr>) \<noteq> selected twoCommits \<and>
   detailsScroll (twoCommits\<lparr>selected := 1, detailsScroll := 0\<rparr>) = 0"
  using selection_change_resets_scroll [of graphlessEnv twoCommits "''j''"
          "twoCommits\<lparr>selected := 1, detailsScroll := 0\<rparr>" "LoadDiff ''.'' [] 1"]
  by (simp add: Update_def updateKey_def listKey_def maybeLoadDiff_def twoCommits_def
        initialModel_def emptyCommit_def)

subsection \<open>The graph-stream parser\<close>

lemma graphLine_classify:
  "graphLine m line =
     (case classifyLine line of
        NoRow \<Rightarrow> m
      | ConnectorOnly prefix \<Rightarrow>
          m\<lparr>maxGraphWidth := max (maxGraphWidth m) (int (length prefix)),
            displayRows := displayRows m @
              [\<lparr>GraphChars = transliterateGraph prefix, CommitIdx = - 1,
                GraphWidth = int (length prefix)\<rparr>]\<rparr>
      | CommitLine prefix parts \<Rightarrow>
          m\<lparr>commits := commits m @ [graphCommit parts],
            maxGraphWidth := max (maxGraphWidth m) (int (length prefix)),
            displayRows := displayRows m @
              [\<lparr>GraphChars = transliterateGraph prefix, CommitIdx = int (length (commits m)),
                GraphWidth = int (length prefix)\<rparr>]\<rparr>)"
proof (cases "line = []")
  case True
  then show ?thesis
    by (simp add: graphLine_def classifyLine_def)
next
  case False
  show ?thesis
  proof (cases "findHash line")
    case None
    with False show ?thesis
      by (simp add: graphLine_def classifyLine_def Let_def max_def)
  next
    case (Some i)
    show ?thesis
    proof (cases "length (splitN 6 (CHR 0x00) (drop i line)) < 4")
      case True
      with False Some show ?thesis
        by (simp add: graphLine_def classifyLine_def Let_def)
    next
      case short: False
      with False Some show ?thesis
        by (simp add: graphLine_def classifyLine_def Let_def max_def del: length_take)
    qed
  qed
qed

lemma graphLine_commits: "commits (graphLine m line) = commits m @ lineCommits line"
  by (cases "classifyLine line") (simp_all add: graphLine_classify lineCommits_def)

lemma graphLine_rows:
  "displayRows (graphLine m line) = displayRows m @ lineRows (length (commits m)) line"
  by (cases "classifyLine line") (simp_all add: graphLine_classify lineRows_def)

lemma graphLine_width:
  "maxGraphWidth (graphLine m line) =
     fold (\<lambda>row w. max w (GraphWidth row)) (lineRows (length (commits m)) line) (maxGraphWidth m)"
  by (cases "classifyLine line") (simp_all add: graphLine_classify lineRows_def)

lemma foldl_graphLine_commits:
  "commits (foldl graphLine m lines) = commits m @ concat (map lineCommits lines)"
  by (induction lines arbitrary: m) (simp_all add: graphLine_commits)

lemma foldl_graphLine_rows:
  "displayRows (foldl graphLine m lines) = displayRows m @ rowsFrom (length (commits m)) lines"
  by (induction lines arbitrary: m) (simp_all add: graphLine_commits graphLine_rows)

lemma foldl_graphLine_width:
  "maxGraphWidth (foldl graphLine m lines) =
     fold (\<lambda>row w. max w (GraphWidth row)) (rowsFrom (length (commits m)) lines) (maxGraphWidth m)"
  by (induction lines arbitrary: m) (simp_all add: graphLine_commits graphLine_width)

lemma hexRunAt_Suc: "hexRunAt (x # xs) (Suc j) = hexRunAt xs j"
  by (auto simp: hexRunAt_def)

lemma hexRunAt_0:
  "hexRunAt (x # xs) 0 = (40 \<le> length (x # xs) \<and> list_all isHexLower (take 40 (x # xs)))"
  by (simp add: hexRunAt_def)

lemma findHashFrom_Some:
  "findHashFrom k line = Some i \<Longrightarrow>
     k \<le> i \<and> hexRunAt line (i - k) \<and> (\<forall>j < i - k. \<not> hexRunAt line j)"
proof (induction k line arbitrary: i rule: findHashFrom.induct)
  case (1 i)
  then show ?case by simp
next
  case (2 k x xs)
  show ?case
  proof (cases "hexRunAt (x # xs) 0")
    case True
    then have "findHashFrom k (x # xs) = Some k"
      by (simp only: findHashFrom.simps hexRunAt_0 if_True simp_thms)
    then show ?thesis
      using 2(2) True by simp
  next
    case False
    then have step: "findHashFrom k (x # xs) = findHashFrom (Suc k) xs"
      by (simp only: findHashFrom.simps hexRunAt_0 if_False simp_thms)
    then have f: "findHashFrom (Suc k) xs = Some i"
      using 2(2) by simp
    have c: "\<not> (40 \<le> length (x # xs) \<and> list_all isHexLower (take 40 (x # xs)))"
      using False by (simp only: hexRunAt_0 simp_thms)
    have ih: "Suc k \<le> i \<and> hexRunAt xs (i - Suc k) \<and> (\<forall>j < i - Suc k. \<not> hexRunAt xs j)"
      using 2(1) [OF c f] .
    have "Suc k \<le> i"
      using ih by (rule conjunct1)
    then have ik: "i - k = Suc (i - Suc k)"
      by arith
    show ?thesis
    proof (intro conjI allI impI)
      show "k \<le> i" using ih by simp
      show "hexRunAt (x # xs) (i - k)"
        using ih ik by (simp add: hexRunAt_Suc)
      fix j assume "j < i - k"
      then show "\<not> hexRunAt (x # xs) j"
        using ih False ik by (cases j) (simp_all add: hexRunAt_Suc)
    qed
  qed
qed

lemma findHashFrom_None:
  "findHashFrom k line = None \<Longrightarrow> \<not> hexRunAt line j"
proof (induction k line arbitrary: j rule: findHashFrom.induct)
  case (1 i)
  then show ?case by (simp add: hexRunAt_def)
next
  case (2 k x xs)
  have c: "\<not> (40 \<le> length (x # xs) \<and> list_all isHexLower (take 40 (x # xs)))"
    using 2(2) by (auto split: if_splits)
  then have f: "findHashFrom (Suc k) xs = None"
    using 2(2) by (simp only: findHashFrom.simps if_False simp_thms)
  have zero: "\<not> hexRunAt (x # xs) 0"
    using c by (simp only: hexRunAt_0 simp_thms)
  show ?case
    using 2(1) [OF c f] zero by (cases j) (simp_all add: hexRunAt_Suc)
qed

lemma findHash_leftmost:
  "findHash line = (if \<exists>i. hexRunAt line i then Some (LEAST i. hexRunAt line i) else None)"
proof (cases "findHash line")
  case None
  then show ?thesis
    using findHashFrom_None [of 0 line] by (simp add: findHash_def)
next
  case (Some i)
  then have i: "hexRunAt line i" and least: "\<forall>j < i. \<not> hexRunAt line j"
    using findHashFrom_Some [of 0 line i] by (simp_all add: findHash_def)
  have "(LEAST i. hexRunAt line i) = i"
  proof (rule Least_equality)
    show "hexRunAt line i" by (rule i)
    fix y assume "hexRunAt line y"
    then show "i \<le> y" using least by (meson not_less)
  qed
  with Some i show ?thesis by auto
qed

lemma splitN_bound: "length (splitN n c s) \<le> n"
  by (induction n c s rule: splitN.induct) (auto split: list.splits)

lemma splitN_nonempty: "0 < n \<Longrightarrow> splitN n c s \<noteq> []"
  by (induction n c s rule: splitN.induct) (auto split: list.splits)

lemma splitN_join: "0 < n \<Longrightarrow> joinWith c (splitN n c s) = s"
proof (induction n c s rule: splitN.induct)
  case (1 c s)
  then show ?case by simp
next
  case (2 c s)
  then show ?case by simp
next
  case (3 n c s)
  show ?case
  proof (cases "dropWhile (\<lambda>x. x \<noteq> c) s")
    case Nil
    then show ?thesis by (simp only: splitN.simps list.case joinWith.simps)
  next
    case (Cons sep rest)
    then have "sep = c"
      using hd_dropWhile [of "\<lambda>x. x \<noteq> c" s] by auto
    have "joinWith c (takeWhile (\<lambda>x. x \<noteq> c) s # splitN (Suc n) c rest) =
          takeWhile (\<lambda>x. x \<noteq> c) s @ c # joinWith c (splitN (Suc n) c rest)"
      by (rule joinWith_Cons) (simp add: splitN_nonempty)
    also have "\<dots> = takeWhile (\<lambda>x. x \<noteq> c) s @ c # rest"
      using 3 Cons by simp
    also have "\<dots> = s"
      using Cons \<open>sep = c\<close> takeWhile_dropWhile_id [of "\<lambda>x. x \<noteq> c" s] by simp
    finally show ?thesis
      using Cons by (simp only: splitN.simps list.case)
  qed
qed

text \<open>
  Claim C2. The parse of any sequence of lines is the classification of the lines, one
  after the other in their order: the commits are those of the commit lines, and the
  rows are, line by line, no row for an empty line or a record of fewer than four fields,
  a connector-only row with commit index \<open>-1\<close> for a line without a hexadecimal run,
  and for a commit line a row with the index of the commit that the line appended. The
  search finds the leftmost offset at which 40 hexadecimal bytes stand (digits and the
  letters \<open>a\<close> to \<open>f\<close> in lower case, as the pattern of the code has them and as git
  prints a hash), and nothing when there is none; the split gives at most 6 fields that,
  joined by the separator, are the text split.
\<close>

theorem parseGraphLines_classifies:
  "commits (parseGraphLines m lines) = concat (map lineCommits lines) \<and>
   displayRows (parseGraphLines m lines) = rowsFrom 0 lines \<and>
   (\<forall>line. findHash line =
      (if \<exists>i. hexRunAt line i then Some (LEAST i. hexRunAt line i) else None)) \<and>
   (\<forall>s. length (splitN 6 (CHR 0x00) s) \<le> 6 \<and>
        joinWith (CHR 0x00) (splitN 6 (CHR 0x00) s) = s)"
  by (simp add: parseGraphLines_def foldl_graphLine_commits foldl_graphLine_rows
        findHash_leftmost [symmetric] splitN_bound splitN_join)

lemma scenario_rows:
  "rowsFrom 0 scenarioLines =
     [\<lparr>GraphChars = [CHR 0xE2, CHR 0x97, CHR 0x8F, CHR '' ''], CommitIdx = 0, GraphWidth = 2\<rparr>,
      \<lparr>GraphChars = [CHR 0xE2, CHR 0x94, CHR 0x82, CHR 0x5C], CommitIdx = - 1, GraphWidth = 2\<rparr>,
      \<lparr>GraphChars = [CHR 0xE2, CHR 0x97, CHR 0x8F, CHR '' ''], CommitIdx = 1, GraphWidth = 2\<rparr>]"
  by code_simp

lemma scenario_commits:
  "map (\<lambda>c. (Hash c, Author c, Date c, Message c, Parents c)) (concat (map lineCommits scenarioLines)) =
     [(''1a2b3c4'', ''Alice'', UnixTime 1700000000, ''Initial'', []),
      (''ffeeddc'', ''Bob'', UnixTime 1700000100, ''Second'', [''1a2b3c4''])]"
  by code_simp

theorem parseGraphLines_classifies_witness:
  "displayRows (parseGraphLines (initialModel ''.'') scenarioLines) =
     [\<lparr>GraphChars = [CHR 0xE2, CHR 0x97, CHR 0x8F, CHR '' ''], CommitIdx = 0, GraphWidth = 2\<rparr>,
      \<lparr>GraphChars = [CHR 0xE2, CHR 0x94, CHR 0x82, CHR 0x5C], CommitIdx = - 1, GraphWidth = 2\<rparr>,
      \<lparr>GraphChars = [CHR 0xE2, CHR 0x97, CHR 0x8F, CHR '' ''], CommitIdx = 1, GraphWidth = 2\<rparr>] \<and>
   map (\<lambda>c. (Hash c, Author c, Date c, Message c, Parents c))
     (commits (parseGraphLines (initialModel ''.'') scenarioLines)) =
     [(''1a2b3c4'', ''Alice'', UnixTime 1700000000, ''Initial'', []),
      (''ffeeddc'', ''Bob'', UnixTime 1700000100, ''Second'', [''1a2b3c4''])]"
  using parseGraphLines_classifies [of "initialModel ''.''" scenarioLines]
    scenario_rows scenario_commits
  by simp

lemma fold_max_Max:
  "fold (\<lambda>row w. max w (f row)) rows (w0 :: int) = Max (insert w0 (f ` set rows))"
proof (induction rows arbitrary: w0)
  case Nil
  show ?case by simp
next
  case (Cons row rows)
  have "Max (insert (max w0 (f row)) (f ` set rows)) = Max (insert w0 (insert (f row) (f ` set rows)))"
    by (cases "rows = []") (simp_all add: max.assoc)
  then show ?case
    using Cons by simp
qed

lemma rowsFrom_widths:
  "map GraphWidth (rowsFrom n lines) =
     map (\<lambda>line. int (length (connectorPrefix line))) (filter (\<lambda>line. classifyLine line \<noteq> NoRow) lines)"
  by (induction lines arbitrary: n)
     (auto simp: lineRows_def connectorPrefix_def split: lineKind.splits)

lemma lineRows_origin:
  "row \<in> set (lineRows n line) \<Longrightarrow>
     GraphChars row = transliterateGraph (connectorPrefix line) \<and>
     GraphWidth row = int (length (connectorPrefix line))"
  by (cases "classifyLine line") (auto simp: lineRows_def connectorPrefix_def)

lemma rowsFrom_origin:
  "row \<in> set (rowsFrom n lines) \<Longrightarrow>
     \<exists>line \<in> set lines. GraphChars row = transliterateGraph (connectorPrefix line) \<and>
        GraphWidth row = int (length (connectorPrefix line))"
proof (induction lines arbitrary: n)
  case Nil
  then show ?case by simp
next
  case (Cons line lines)
  then consider "row \<in> set (lineRows n line)"
    | "row \<in> set (rowsFrom (n + length (lineCommits line)) lines)"
    by auto
  then show ?case
  proof cases
    case 1
    then show ?thesis
      using lineRows_origin by simp
  next
    case 2
    then show ?thesis
      using Cons.IH by auto
  qed
qed

lemma columns_append: "columns (s @ t) = columns s + columns t"
  by (simp add: columns_def)

lemma columns_spaces: "columns (replicate n (CHR '' '')) = n"
  by (induction n) (simp_all add: columns_def)

lemma columns_transliterate:
  "printableASCII s \<Longrightarrow> columns (transliterateGraph s) = length s"
proof (induction s)
  case Nil
  show ?case by (simp add: columns_def transliterateGraph_def)
next
  case (Cons c s)
  then have c: "(of_char c :: nat) \<le> 0x7E" and s: "printableASCII s"
    by (simp_all add: printableASCII_def)
  have "columns (transliterateGraph (c # s)) =
          columns (if c = CHR ''*'' then [CHR 0xE2, CHR 0x97, CHR 0x8F]
                   else if c = CHR ''|'' then [CHR 0xE2, CHR 0x94, CHR 0x82] else [c]) +
          columns (transliterateGraph s)"
    by (simp add: transliterateGraph_def columns_append)
  moreover have "columns (if c = CHR ''*'' then [CHR 0xE2, CHR 0x97, CHR 0x8F]
                   else if c = CHR ''|'' then [CHR 0xE2, CHR 0x94, CHR 0x82] else [c]) = 1"
    using c by (simp add: columns_def)
  ultimately show ?case
    using Cons.IH [OF s] by simp
qed

lemma columns_Cons:
  "columns (c # s) =
     (if 0x80 \<le> (of_char c :: nat) \<and> (of_char c :: nat) \<le> 0xBF then columns s
      else Suc (columns s))"
  by (simp add: columns_def)

lemma columns_highlight: "columns (highlight s) = columns s"
proof (induction s rule: highlight.induct)
  case (1 a b c rest)
  show ?case
  proof (cases "a = CHR 0xE2 \<and> b = CHR 0x97 \<and> c = CHR 0x8F")
    case True
    then show ?thesis
      using 1(1) by (simp add: columns_Cons)
  next
    case False
    then have "highlight (a # b # c # rest) = a # highlight (b # c # rest)"
      by auto
    then show ?thesis
      using 1(2) False by (simp only: columns_Cons) auto
  qed
qed (simp_all)

text \<open>
  Claim C3, amended. After the parse of any sequence of lines every row is at most
  \<open>maxGraphWidth\<close> wide, \<open>maxGraphWidth\<close> is the greatest width of a row (0 without
  rows), and the width of a row is the number of bytes of the connector prefix of its
  line before transliteration. When every connector prefix is printable ASCII, where
  bytes, characters and columns are the same, the padded connector column of every row
  takes exactly \<open>maxGraphWidth\<close> columns, also with the marker of the selected row
  highlighted.
\<close>

theorem graph_width_alignment:
  "(\<forall>row \<in> set (displayRows (parseGraphLines m lines)).
      GraphWidth row \<le> maxGraphWidth (parseGraphLines m lines)) \<and>
   maxGraphWidth (parseGraphLines m lines) =
     Max (insert 0 (GraphWidth ` set (displayRows (parseGraphLines m lines)))) \<and>
   map GraphWidth (displayRows (parseGraphLines m lines)) =
     map (\<lambda>line. int (length (connectorPrefix line)))
       (filter (\<lambda>line. classifyLine line \<noteq> NoRow) lines) \<and>
   ((\<forall>line \<in> set lines. printableASCII (connectorPrefix line)) \<longrightarrow>
      (\<forall>row \<in> set (displayRows (parseGraphLines m lines)).
         int (columns (graphPadded (maxGraphWidth (parseGraphLines m lines)) row)) =
           maxGraphWidth (parseGraphLines m lines) \<and>
         int (columns (highlight (graphPadded (maxGraphWidth (parseGraphLines m lines)) row))) =
           maxGraphWidth (parseGraphLines m lines)))"
proof -
  let ?m = "parseGraphLines m lines"
  have rows: "displayRows ?m = rowsFrom 0 lines"
    by (simp add: parseGraphLines_def foldl_graphLine_rows)
  have width: "maxGraphWidth ?m = Max (insert 0 (GraphWidth ` set (displayRows ?m)))"
    by (simp add: parseGraphLines_def foldl_graphLine_rows foldl_graphLine_width fold_max_Max)
  have le: "GraphWidth row \<le> maxGraphWidth ?m" if "row \<in> set (displayRows ?m)" for row
    unfolding width using that by (intro Max_ge) auto
  have cols: "int (columns (graphPadded (maxGraphWidth ?m) row)) = maxGraphWidth ?m"
    if ascii: "\<forall>line \<in> set lines. printableASCII (connectorPrefix line)"
      and row: "row \<in> set (displayRows ?m)" for row
  proof -
    obtain line where "line \<in> set lines"
      and chars: "GraphChars row = transliterateGraph (connectorPrefix line)"
      and w: "GraphWidth row = int (length (connectorPrefix line))"
      using row rows rowsFrom_origin by metis
    then have "columns (GraphChars row) = length (connectorPrefix line)"
      using ascii by (simp add: columns_transliterate)
    then show ?thesis
      using le [OF row] w
      by (simp add: graphPadded_def padLen_def Let_def columns_append columns_spaces)
  qed
  show ?thesis
    using le width cols rows rowsFrom_widths by (auto simp: columns_highlight)
qed

lemma scenario_columns:
  "list_all (\<lambda>line. printableASCII (connectorPrefix line)) scenarioLines \<and>
   map (\<lambda>row. columns (graphPadded 2 row)) (rowsFrom 0 scenarioLines) = [2, 2, 2]"
  by code_simp

theorem graph_width_alignment_witness:
  "list_all (\<lambda>line. printableASCII (connectorPrefix line)) scenarioLines \<and>
   maxGraphWidth (parseGraphLines (initialModel ''.'') scenarioLines) = 2 \<and>
   map (\<lambda>row. columns (graphPadded 2 row))
     (displayRows (parseGraphLines (initialModel ''.'') scenarioLines)) = [2, 2, 2]"
  using graph_width_alignment [of "initialModel ''.''" scenarioLines]
    scenario_rows scenario_columns
  by (simp add: parseGraphLines_def foldl_graphLine_rows)

text \<open>
  Claim C3 as stated fails on a connector-only line that is not ASCII: for the one line
  of the two bytes of U+00E9 the width of the row is 2, the number of bytes, while the
  prefix is one character, and the padded connector column takes one column, not the
  two of \<open>maxGraphWidth\<close>.
\<close>

theorem graph_width_bytes_counterexample:
  "displayRows (parseGraphLines (initialModel ''.'') [[CHR 0xC3, CHR 0xA9]]) =
     [\<lparr>GraphChars = [CHR 0xC3, CHR 0xA9], CommitIdx = - 1, GraphWidth = 2\<rparr>] \<and>
   maxGraphWidth (parseGraphLines (initialModel ''.'') [[CHR 0xC3, CHR 0xA9]]) = 2 \<and>
   columns [CHR 0xC3, CHR 0xA9] = 1 \<and>
   columns (graphPadded 2
              \<lparr>GraphChars = [CHR 0xC3, CHR 0xA9], CommitIdx = - 1, GraphWidth = 2\<rparr>) = 1"
  by code_simp

subsection \<open>The label overlay\<close>

lemma copyEscape_span:
  "copyEscape rs =
     (takeWhile (\<lambda>x. \<not> isFinal x) rs @ take 1 (dropWhile (\<lambda>x. \<not> isFinal x) rs),
      drop 1 (dropWhile (\<lambda>x. \<not> isFinal x) rs))"
  by (induction rs) (simp_all add: isFinal_def)

lemma tokens_escape:
  assumes "r = 0x1B \<and> rs \<noteq> [] \<and> hd rs = 0x5B"
  shows "tokens (r # rs) =
           Escape (0x1B # 0x5B # takeWhile (\<lambda>x. \<not> isFinal x) (tl rs) @
                     take 1 (dropWhile (\<lambda>x. \<not> isFinal x) (tl rs))) #
           tokens (drop 1 (dropWhile (\<lambda>x. \<not> isFinal x) (tl rs)))"
  using assms by (subst tokens.simps) (simp only: if_True simp_thms)

lemma tokens_visible:
  assumes "\<not> (r = 0x1B \<and> rs \<noteq> [] \<and> hd rs = 0x5B)"
  shows "tokens (r # rs) = Visible r # tokens rs"
  using assms by (subst tokens.simps) (simp only: if_False simp_thms)

lemma overlayRunes_escape:
  assumes "r = 0x1B \<and> rs \<noteq> [] \<and> hd rs = 0x5B"
  shows "overlayRunes v lab (r # rs) =
           0x1B # 0x5B # takeWhile (\<lambda>x. \<not> isFinal x) (tl rs) @
             take 1 (dropWhile (\<lambda>x. \<not> isFinal x) (tl rs)) @
             overlayRunes v lab (drop 1 (dropWhile (\<lambda>x. \<not> isFinal x) (tl rs)))"
  using assms
  by (subst overlayRunes.simps) (simp only: if_True simp_thms copyEscape_span prod.case append.assoc)

lemma overlayRunes_visible:
  assumes "\<not> (r = 0x1B \<and> rs \<noteq> [] \<and> hd rs = 0x5B)"
  shows "overlayRunes v lab (r # rs) =
           (if v \<ge> 1 \<and> lab \<noteq> [] then hd lab # overlayRunes (v + 1) (tl lab) rs
            else r # overlayRunes (v + 1) lab rs)"
  using assms by (subst overlayRunes.simps) (simp only: if_False simp_thms)

lemma tokens_text: "concat (map tokenText (tokens rs)) = rs"
proof (induction rs rule: tokens.induct)
  case 1
  show ?case by simp
next
  case (2 r rs)
  show ?case
  proof (cases "r = 0x1B \<and> rs \<noteq> [] \<and> hd rs = 0x5B")
    case True
    let ?params = "takeWhile (\<lambda>x. \<not> isFinal x) (tl rs)"
    let ?final = "take 1 (dropWhile (\<lambda>x. \<not> isFinal x) (tl rs))"
    let ?rest = "drop 1 (dropWhile (\<lambda>x. \<not> isFinal x) (tl rs))"
    have rs: "r # rs = 0x1B # 0x5B # tl rs"
      using True by (cases rs) auto
    have "concat (map tokenText (tokens (r # rs))) =
            (0x1B # 0x5B # ?params @ ?final) @ concat (map tokenText (tokens ?rest))"
      by (simp only: tokens_escape [OF True] list.map concat.simps tokenText_def token.case)
    also have "\<dots> = (0x1B # 0x5B # ?params @ ?final) @ ?rest"
      by (simp only: 2(1) [OF True])
    also have "\<dots> = 0x1B # 0x5B # tl rs"
      by simp
    finally show ?thesis
      by (simp only: rs)
  next
    case False
    have "concat (map tokenText (tokens (r # rs))) = r # concat (map tokenText (tokens rs))"
      by (simp add: tokens_visible [OF False] tokenText_def del: tokens.simps)
    then show ?thesis
      by (simp only: 2(2) [OF False])
  qed
qed

lemma overlayRunes_relabel:
  "overlayRunes v (drop (v - 1) label) rs = concat (map tokenText (relabel v label (tokens rs)))"
proof (induction rs arbitrary: v rule: tokens.induct)
  case 1
  show ?case by simp
next
  case (2 r rs)
  show ?case
  proof (cases "r = 0x1B \<and> rs \<noteq> [] \<and> hd rs = 0x5B")
    case True
    let ?params = "takeWhile (\<lambda>x. \<not> isFinal x) (tl rs)"
    let ?final = "take 1 (dropWhile (\<lambda>x. \<not> isFinal x) (tl rs))"
    let ?rest = "drop 1 (dropWhile (\<lambda>x. \<not> isFinal x) (tl rs))"
    have "concat (map tokenText (relabel v label (tokens (r # rs)))) =
            (0x1B # 0x5B # ?params @ ?final) @
            concat (map tokenText (relabel v label (tokens ?rest)))"
      by (simp only: tokens_escape [OF True] relabel.simps list.map concat.simps
            tokenText_def token.case)
    also have "\<dots> = (0x1B # 0x5B # ?params @ ?final) @ overlayRunes v (drop (v - 1) label) ?rest"
      by (simp only: 2(1) [OF True, of v])
    also have "\<dots> = overlayRunes v (drop (v - 1) label) (r # rs)"
      by (simp only: overlayRunes_escape [OF True] append.simps append.assoc)
    finally show ?thesis
      by (rule sym)
  next
    case vis: False
    note ih = 2(2) [OF vis, of "Suc v"]
    have toks: "concat (map tokenText (relabel v label (tokens (r # rs)))) =
            (if 1 \<le> v \<and> v \<le> length label then label ! (v - 1) else r) #
            concat (map tokenText (relabel (Suc v) label (tokens rs)))"
      by (simp add: tokens_visible [OF vis] tokenText_def del: tokens.simps)
    have code: "overlayRunes v (drop (v - 1) label) (r # rs) =
            (if v \<ge> 1 \<and> drop (v - 1) label \<noteq> []
             then hd (drop (v - 1) label) # overlayRunes (Suc v) (tl (drop (v - 1) label)) rs
             else r # overlayRunes (Suc v) (drop (v - 1) label) rs)"
      by (simp only: overlayRunes_visible [OF vis] Suc_eq_plus1)
    show ?thesis
    proof (cases "1 \<le> v \<and> v \<le> length label")
      case True
      then have lt: "v - 1 < length label"
        by auto
      have h: "hd (drop (v - 1) label) = label ! (v - 1)"
        using lt by (rule hd_drop_conv_nth)
      have "tl (drop (v - 1) label) = drop (Suc (v - 1)) label"
        by (simp add: drop_Suc tl_drop)
      then have t: "tl (drop (v - 1) label) = drop (Suc v - 1) label"
        using True by simp
      have n: "drop (v - 1) label \<noteq> []"
        using lt by simp
      have "overlayRunes v (drop (v - 1) label) (r # rs) =
              label ! (v - 1) # overlayRunes (Suc v) (drop (Suc v - 1) label) rs"
        using True n by (simp only: code h t if_True simp_thms)
      then show ?thesis
        using True by (simp only: toks ih if_True simp_thms)
    next
      case v: False
      have "overlayRunes v (drop (v - 1) label) (r # rs) =
              r # overlayRunes (Suc v) (drop (Suc v - 1) label) rs"
      proof (cases "v = 0")
        case True
        then show ?thesis
          by (simp add: overlayRunes_visible [OF vis] del: overlayRunes.simps)
      next
        case False
        then have "length label < v"
          using v by simp
        then have "drop (v - 1) label = []" and "drop (Suc v - 1) label = []"
          by simp_all
        then show ?thesis
          by (simp add: overlayRunes_visible [OF vis] del: overlayRunes.simps)
      qed
      then show ?thesis
        using v by (simp only: toks ih if_False simp_thms)
    qed
  qed
qed

lemma relabel_escapes: "map escapeOf (relabel v label ts) = map escapeOf ts"
  by (induction v label ts rule: relabel.induct) (simp_all add: escapeOf_def)

lemma relabel_visible_length:
  "length (visibleRunes (relabel v label ts)) = length (visibleRunes ts)"
  by (induction v label ts rule: relabel.induct) (simp_all add: visibleRunes_def)

lemma visibleRunes_Escape: "visibleRunes (Escape e # ts) = visibleRunes ts"
  by (simp add: visibleRunes_def)

lemma visibleRunes_Visible: "visibleRunes (Visible r # ts) = r # visibleRunes ts"
  by (simp add: visibleRunes_def)

lemma relabel_visible_nth:
  "i < length (visibleRunes ts) \<Longrightarrow>
     visibleRunes (relabel v label ts) ! i =
       (if 1 \<le> v + i \<and> v + i \<le> length label then label ! (v + i - 1)
        else visibleRunes ts ! i)"
proof (induction v label ts arbitrary: i rule: relabel.induct)
  case (1 v label)
  then show ?case by (simp add: visibleRunes_def)
next
  case (2 v label e ts)
  then show ?case by (simp add: visibleRunes_Escape)
next
  case (3 v label r ts)
  show ?case
  proof (cases i)
    case 0
    then show ?thesis
      by (simp add: visibleRunes_Visible)
  next
    case (Suc j)
    then have "j < length (visibleRunes ts)"
      using 3(2) by (simp add: visibleRunes_Visible)
    then show ?thesis
      using 3(1) [of j] Suc by (simp add: visibleRunes_Visible)
  qed
qed

lemma splitN_two:
  "splitN 2 c s =
     (case dropWhile (\<lambda>x. x \<noteq> c) s of
        [] \<Rightarrow> [s]
      | sep # rest \<Rightarrow> [takeWhile (\<lambda>x. x \<noteq> c) s, rest])"
proof -
  have "splitN (Suc (Suc 0)) c s =
          (case dropWhile (\<lambda>x. x \<noteq> c) s of
             [] \<Rightarrow> [s]
           | sep # rest \<Rightarrow> takeWhile (\<lambda>x. x \<noteq> c) s # splitN (Suc 0) c rest)"
    by (rule splitN.simps(3))
  then show ?thesis
    by (cases "dropWhile (\<lambda>x. x \<noteq> c) s") (simp_all only: numeral_2_eq_2 list.case splitN.simps(2))
qed

lemma addBoxLabel_lines:
  "addBoxLabel rendered label =
     overlayRunes 0 label (takeWhile (\<lambda>r. r \<noteq> 0x0A) rendered) @
     dropWhile (\<lambda>r. r \<noteq> 0x0A) rendered"
proof (cases "dropWhile (\<lambda>r. r \<noteq> 0x0A) rendered")
  case Nil
  then have t: "takeWhile (\<lambda>r. r \<noteq> 0x0A) rendered = rendered"
    by (metis append_Nil2 takeWhile_dropWhile_id)
  have sp: "splitN 2 0x0A rendered = [rendered]"
    by (simp only: splitN_two Nil list.case)
  show ?thesis
    unfolding addBoxLabel_def sp Nil t by (simp del: overlayRunes.simps)
next
  case (Cons sep rest)
  then have sep: "sep = 0x0A"
    using hd_dropWhile [of "\<lambda>r. r \<noteq> 0x0A" rendered] by auto
  have sp: "splitN 2 0x0A rendered = [takeWhile (\<lambda>r. r \<noteq> 0x0A) rendered, rest]"
    by (simp only: splitN_two Cons list.case)
  show ?thesis
    unfolding addBoxLabel_def sp Cons sep by (simp del: overlayRunes.simps)
qed

text \<open>
  Claim C4. For every rendered frame and every label, taken as sequences of runes: the
  result of \<^verbatim>\<open>addBoxLabel\<close> is the top line, read as escape sequences and visible
  characters, with its visible characters relabelled, followed by the rest of the frame
  from the first newline on, unchanged. The reading loses nothing of the top line. The
  relabelling keeps every escape sequence whole and in its place among the tokens, keeps
  the number of visible characters, and puts at the visible position \<open>i\<close> the character
  \<open>i - 1\<close> of the label when \<open>1 \<le> i \<le> length label\<close> and leaves the visible
  character otherwise: the first visible character stays, the label follows it and is
  cut where the visible characters end.
\<close>

theorem addBoxLabel_overlays_label:
  "(let top = takeWhile (\<lambda>r. r \<noteq> 0x0A) rendered;
        ts = tokens top;
        ts' = relabel 0 label ts
    in addBoxLabel rendered label =
         concat (map tokenText ts') @ dropWhile (\<lambda>r. r \<noteq> 0x0A) rendered \<and>
       concat (map tokenText ts) = top \<and>
       map escapeOf ts' = map escapeOf ts \<and>
       length (visibleRunes ts') = length (visibleRunes ts) \<and>
       (\<forall>i < length (visibleRunes ts).
          visibleRunes ts' ! i =
            (if 1 \<le> i \<and> i \<le> length label then label ! (i - 1) else visibleRunes ts ! i)))"
  using overlayRunes_relabel [of 0 label "takeWhile (\<lambda>r. r \<noteq> 0x0A) rendered"]
    relabel_visible_nth [of _ "tokens (takeWhile (\<lambda>r. r \<noteq> 0x0A) rendered)" 0 label]
  by (simp add: Let_def addBoxLabel_lines tokens_text relabel_escapes relabel_visible_length)

lemma labelled_frame:
  "addBoxLabel [0x1B, 0x5B, 0x33, 0x6D, 0x256D, 0x2500, 0x2500, 0x2500, 0x2500, 0x256E,
                0x1B, 0x5B, 0x30, 0x6D, 0x0A, 0x2502, 0x0A, 0x2570] [0x5B, 0x31, 0x5D] =
     [0x1B, 0x5B, 0x33, 0x6D, 0x256D, 0x5B, 0x31, 0x5D, 0x2500, 0x256E,
      0x1B, 0x5B, 0x30, 0x6D, 0x0A, 0x2502, 0x0A, 0x2570]"
  by code_simp

lemma labelled_tokens:
  "relabel 0 [0x5B, 0x31, 0x5D]
     (tokens [0x1B, 0x5B, 0x33, 0x6D, 0x256D, 0x2500, 0x2500, 0x2500, 0x2500, 0x256E,
              0x1B, 0x5B, 0x30, 0x6D]) =
     [Escape [0x1B, 0x5B, 0x33, 0x6D], Visible 0x256D, Visible 0x5B, Visible 0x31,
      Visible 0x5D, Visible 0x2500, Visible 0x256E, Escape [0x1B, 0x5B, 0x30, 0x6D]]"
  by code_simp

theorem addBoxLabel_overlays_label_witness:
  "addBoxLabel [0x1B, 0x5B, 0x33, 0x6D, 0x256D, 0x2500, 0x2500, 0x2500, 0x2500, 0x256E,
                0x1B, 0x5B, 0x30, 0x6D, 0x0A, 0x2502, 0x0A, 0x2570] [0x5B, 0x31, 0x5D] =
     [0x1B, 0x5B, 0x33, 0x6D, 0x256D, 0x5B, 0x31, 0x5D, 0x2500, 0x256E,
      0x1B, 0x5B, 0x30, 0x6D, 0x0A, 0x2502, 0x0A, 0x2570] \<and>
   relabel 0 [0x5B, 0x31, 0x5D]
     (tokens (takeWhile (\<lambda>r. r \<noteq> 0x0A)
        [0x1B, 0x5B, 0x33, 0x6D, 0x256D, 0x2500, 0x2500, 0x2500, 0x2500, 0x256E,
         0x1B, 0x5B, 0x30, 0x6D, 0x0A, 0x2502, 0x0A, 0x2570])) =
     [Escape [0x1B, 0x5B, 0x33, 0x6D], Visible 0x256D, Visible 0x5B, Visible 0x31,
      Visible 0x5D, Visible 0x2500, Visible 0x256E, Escape [0x1B, 0x5B, 0x30, 0x6D]]"
  using addBoxLabel_overlays_label
          [of "[0x1B, 0x5B, 0x33, 0x6D, 0x256D, 0x2500, 0x2500, 0x2500, 0x2500, 0x256E,
                0x1B, 0x5B, 0x30, 0x6D, 0x0A, 0x2502, 0x0A, 0x2570]" "[0x5B, 0x31, 0x5D]"]
    labelled_frame labelled_tokens
  by (simp del: tokens.simps relabel.simps)

subsection \<open>Simple mode\<close>

lemma setRepoName_fields:
  "displayRows (setRepoName e m) = displayRows m \<and> commits (setRepoName e m) = commits m \<and>
   maxGraphWidth (setRepoName e m) = maxGraphWidth m \<and>
   windowHeight (setRepoName e m) = windowHeight m \<and> err (setRepoName e m) = err m \<and>
   repo (setRepoName e m) = repo m"
  by (simp add: setRepoName_def Let_def split: option.splits)

lemma loadRepoInfoFromCLI_fields:
  "displayRows (loadRepoInfoFromCLI e m) = displayRows m \<and>
   commits (loadRepoInfoFromCLI e m) = commits m \<and>
   maxGraphWidth (loadRepoInfoFromCLI e m) = maxGraphWidth m \<and>
   windowHeight (loadRepoInfoFromCLI e m) = windowHeight m \<and>
   err (loadRepoInfoFromCLI e m) = err m"
  by (simp add: loadRepoInfoFromCLI_def Let_def setRepoName_fields split: option.splits)

lemma loadRepoInfo_fields:
  "displayRows (loadRepoInfo e m) = displayRows m \<and>
   commits (loadRepoInfo e m) = commits m \<and>
   maxGraphWidth (loadRepoInfo e m) = maxGraphWidth m \<and>
   windowHeight (loadRepoInfo e m) = windowHeight m \<and>
   err (loadRepoInfo e m) = err m"
  by (simp add: loadRepoInfo_def Let_def setRepoName_fields loadRepoInfoFromCLI_fields
        split: option.splits prod.splits)

lemma loadAll_degraded:
  assumes "graphLog e = Inl failure" and "simpleLog e = Inr out"
  shows "fst (loadAll e errorText m) =
           m\<lparr>commits := generateGraph (foldl (cliLine (clock e)) [] (splitOn NL out)),
             ready := True, selected := 0\<rparr>"
  using assms
  by (cases failure) (simp add: loadAll_def loadGraphData_def loadCommitsFromGitCLI_def Let_def)

lemma Update_degraded:
  assumes "graphLog e = Inl failure" and "simpleLog e = Inr out"
    and "message = RepoMsg r \<or> message = ErrMsg text"
  shows "displayRows (fst (Update e m message)) = displayRows m \<and>
         commits (fst (Update e m message)) =
           generateGraph (foldl (cliLine (clock e)) [] (splitOn NL out)) \<and>
         ready (fst (Update e m message)) \<and> selected (fst (Update e m message)) = 0 \<and>
         err (fst (Update e m message)) = err m \<and>
         windowHeight (fst (Update e m message)) = windowHeight m"
  using assms(3)
proof
  assume "message = RepoMsg r"
  then show ?thesis
    by (simp add: Update_def Let_def loadAll_degraded [OF assms(1,2)] loadRepoInfo_fields)
next
  assume "message = ErrMsg text"
  then show ?thesis
    by (simp add: Update_def Let_def loadAll_degraded [OF assms(1,2)] loadRepoInfoFromCLI_fields)
qed

text \<open>
  The window of simple mode holds the selected commit and lies inside the commits.
\<close>

lemma simple_window_contains_selection:
  assumes "0 \<le> sel" and "sel < n" and "1 \<le> vh"
  shows "case simpleRange n sel vh of
           (startIdx, endIdx) \<Rightarrow> 0 \<le> startIdx \<and> startIdx \<le> sel \<and> sel < endIdx \<and> endIdx \<le> n"
  using assms by (auto simp: simpleRange_def Let_def)

lemma simpleRange_top:
  "1 \<le> vh \<Longrightarrow> simpleRange n 0 vh = (0, min vh n)"
  by (simp add: simpleRange_def Let_def min_def)

lemma visibleHeight_positive: "1 \<le> visibleHeight wh"
  by (simp add: visibleHeight_def Let_def)

text \<open>
  Claim C9, amended. When \<^verbatim>\<open>git log --graph\<close> fails and the simple loader succeeds,
  the update step on the message of the opened (or not opened) repository stores the
  commits of the simple loader and writes no display row: the display rows stay as they
  were, empty at start-up. The model is ready with the first commit selected. The commit
  list is then drawn by the simple-mode branch of \<^verbatim>\<open>renderCommitList\<close>, straight from
  the commits: the lines are the commits \<open>0\<close> to \<open>min visibleHeight (number of commits) - 1\<close>
  in the order of the store, so that the line of a commit is its index.
\<close>

theorem simple_mode_degradation:
  assumes "graphLog e = Inl failure" and "simpleLog e = Inr out"
    and "message = RepoMsg r \<or> message = ErrMsg text" and "displayRows m = []"
  shows "(let m' = fst (Update e m message);
              vh = visibleHeight (windowHeight m');
              maxLines = (if windowHeight m' - 8 < 3 then 3 else windowHeight m' - 8)
          in displayRows m' = [] \<and>
             commits m' = generateGraph (foldl (cliLine (clock e)) [] (splitOn NL out)) \<and>
             ready m' \<and> selected m' = 0 \<and>
             simpleModeRows m' vh = [0 .. min vh (int (length (commits m'))) - 1] \<and>
             renderCommitList S m' =
               (if commits m' = [] then ''No commits found''
                else joinWith NL
                       (if int (length (splitOn NL (simpleModeText S m' vh))) > maxLines
                        then take (nat maxLines) (splitOn NL (simpleModeText S m' vh))
                        else splitOn NL (simpleModeText S m' vh))))"
proof -
  let ?m = "fst (Update e m message)"
  note d = Update_degraded [OF assms(1,2,3), of m]
  have rows: "displayRows ?m = []"
    using d assms(4) by simp
  have sel: "selected ?m = 0"
    using d by simp
  have range: "simpleModeRows ?m (visibleHeight (windowHeight ?m)) =
                 [0 .. min (visibleHeight (windowHeight ?m)) (int (length (commits ?m))) - 1]"
    by (simp add: simpleModeRows_def sel simpleRange_top visibleHeight_positive)
  have render: "renderCommitList S ?m =
          (if commits ?m = [] then ''No commits found''
           else joinWith NL
                  (if int (length (splitOn NL (simpleModeText S ?m (visibleHeight (windowHeight ?m)))))
                        > (if windowHeight ?m - 8 < 3 then 3 else windowHeight ?m - 8)
                   then take (nat (if windowHeight ?m - 8 < 3 then 3 else windowHeight ?m - 8))
                          (splitOn NL (simpleModeText S ?m (visibleHeight (windowHeight ?m))))
                   else splitOn NL (simpleModeText S ?m (visibleHeight (windowHeight ?m)))))"
    by (simp add: renderCommitList_def rows Let_def)
  show ?thesis
    unfolding Let_def using d rows range render by simp
qed

lemma degraded_example:
  "map FullHash (commits (fst (Update graphlessEnv (initialModel ''.'') (RepoMsg (Some 0))))) =
     [hash2, hash1] \<and>
   displayRows (fst (Update graphlessEnv (initialModel ''.'') (RepoMsg (Some 0)))) = [] \<and>
   simpleModeRows (fst (Update graphlessEnv (initialModel ''.'') (RepoMsg (Some 0)))) 1 = [0]"
  by code_simp

theorem simple_mode_degradation_witness:
  "graphLog graphlessEnv = Inl (''exit status 129'', ''error: unknown option'') \<and>
   displayRows (initialModel ''.'') = [] \<and>
   displayRows (fst (Update graphlessEnv (initialModel ''.'') (RepoMsg (Some 0)))) = [] \<and>
   map FullHash (commits (fst (Update graphlessEnv (initialModel ''.'') (RepoMsg (Some 0))))) =
     [hash2, hash1] \<and>
   simpleModeRows (fst (Update graphlessEnv (initialModel ''.'') (RepoMsg (Some 0)))) 1 = [0]"
  using simple_mode_degradation [of graphlessEnv "(''exit status 129'', ''error: unknown option'')"
          "hash2 @ ''|Bob|1700000100|Second|'' @ hash1 @ [NL] @ hash1 @ ''|Alice|1700000000|Initial|''"
          "RepoMsg (Some 0)" "Some 0" "[]" "initialModel ''.''" plainStyles]
    degraded_example
  by (simp add: graphlessEnv_def initialModel_def)

text \<open>
  Claim C9 as stated fails: after the degradation to simple mode with two commits there is
  no display row at all, not one for each commit.
\<close>

theorem simple_mode_rows_counterexample:
  "map FullHash (commits (fst (Update graphlessEnv (initialModel ''.'') (RepoMsg (Some 0))))) =
     [hash2, hash1] \<and>
   displayRows (fst (Update graphlessEnv (initialModel ''.'') (RepoMsg (Some 0)))) = []"
  by code_simp

subsection \<open>The frame\<close>

lemma trimToHeight_returns:
  assumes "2 \<le> targetHeight"
  shows "\<exists>out. trimToHeight rendered targetHeight = Inr out"
proof (cases "int (length (contentLines rendered)) > targetHeight")
  case True
  then show ?thesis
    using assms by (simp add: trimToHeight_long)
next
  case False
  then show ?thesis
    by (simp add: trimToHeight_short)
qed

lemma composeFrame_returns: "\<exists>frame. composeFrame R m = Inr frame"
proof -
  define contentHeight where
    "contentHeight = (if windowHeight m - lipglossHeight (repoInfoBox R m) - 5 < 3 then 3
                      else windowHeight m - lipglossHeight (repoInfoBox R m) - 5)"
  obtain lw rw where w: "panelWidths m = (lw, rw)"
    by (cases "panelWidths m")
  have "2 \<le> contentHeight + 2"
    by (simp add: contentHeight_def)
  then obtain left right
    where l: "trimToHeight (leftPanel R m lw contentHeight) (contentHeight + 2) = Inr left"
      and r: "trimToHeight (rightPanel R m rw contentHeight) (contentHeight + 2) = Inr right"
    using trimToHeight_returns by blast
  show ?thesis
    using w l r unfolding composeFrame_def Let_def contentHeight_def [symmetric]
    by simp
qed

lemma fitToWindow_exact:
  assumes "1 \<le> h"
  shows "\<exists>out. fitToWindow frame h = Inr out \<and> lipglossHeight out = h \<and>
           out = (if lipglossHeight frame > h
                  then joinWith NL (take (nat h) (splitOn NL frame))
                  else frame @ replicate (nat (h - lipglossHeight frame)) NL)"
proof (cases "lipglossHeight frame > h")
  case True
  let ?L = "take (nat h) (splitOn NL frame)"
  have len: "int (length ?L) = h"
    using True assms by (simp add: lipglossHeight_splitOn)
  then have ne: "?L \<noteq> []"
    using assms by auto
  have free: "\<forall>l \<in> set ?L. NL \<notin> set l"
    by (auto dest: in_set_takeD simp: splitOn_no_sep)
  have "lipglossHeight (joinWith NL ?L) = h"
    using ne free len by (simp add: lipglossHeight_joinWith)
  then show ?thesis
    using True assms by (simp add: fitToWindow_def)
next
  case False
  then show ?thesis
    by (auto simp: fitToWindow_def Let_def lipglossHeight_append_NLs)
qed

text \<open>
  Claim C6. For a model that is ready, has no error and a window of at least 20 by 10,
  the frame is composed without a panic and \<^verbatim>\<open>View\<close> returns it fitted to the window:
  the result has exactly \<open>windowHeight\<close> lines, counted as lipgloss counts them (newlines
  plus one, whatever escape sequences the lines hold); a frame of more lines is cut to
  its first \<open>windowHeight\<close> lines, and a frame of fewer lines is followed by newlines.
\<close>

theorem View_exact_height:
  assumes "ready m" and "err m = None" and "20 \<le> windowWidth m" and "10 \<le> windowHeight m"
  shows "\<exists>frame. composeFrame R m = Inr frame \<and>
           lipglossHeight (View R m) = windowHeight m \<and>
           View R m =
             (if lipglossHeight frame > windowHeight m
              then joinWith NL (take (nat (windowHeight m)) (splitOn NL frame))
              else frame @ replicate (nat (windowHeight m - lipglossHeight frame)) NL)"
proof -
  obtain frame where c: "composeFrame R m = Inr frame"
    using composeFrame_returns by blast
  have "1 \<le> windowHeight m"
    using assms(4) by simp
  then obtain out where f: "fitToWindow frame (windowHeight m) = Inr out"
    and h: "lipglossHeight out = windowHeight m"
    and o: "out = (if lipglossHeight frame > windowHeight m
                   then joinWith NL (take (nat (windowHeight m)) (splitOn NL frame))
                   else frame @ replicate (nat (windowHeight m - lipglossHeight frame)) NL)"
    using fitToWindow_exact by blast
  have "View R m = out"
    using assms c f by (simp add: View_def)
  then show ?thesis
    using c h o by simp
qed

lemma plain_frame: "lipglossHeight (View plainRenderer wideModel) = 10"
  by code_simp

theorem View_exact_height_witness:
  "ready wideModel \<and> err wideModel = None \<and> 20 \<le> windowWidth wideModel \<and>
   10 \<le> windowHeight wideModel \<and> lipglossHeight (View plainRenderer wideModel) = 10"
  using View_exact_height [of wideModel plainRenderer] plain_frame
  by (simp add: wideModel_def twoCommits_def initialModel_def)

end
